theory Spec2Isabelle
  imports Complex_Main
begin

section \<open>Data model of index.ts\<close>

text \<open>
  JavaScript numbers are modelled exactly: vote counts as \<open>nat\<close>, identifiers and
  scores as \<open>int\<close>, quotients and durations as \<open>rat\<close>. A field that the code
  tests against \<^verbatim>\<open>undefined\<close>/\<^verbatim>\<open>null\<close> (or reads through \<^verbatim>\<open>?.\<close>) is an
  \<open>option\<close>, with \<open>None\<close> for the missing field; a property read on a missing
  object is the error value \<open>TypeError\<close>. Fields that the code reads without any test
  (the statistics block, the scalar attributes) are plain values.
\<close>

datatype js_error = TypeError

text \<open>A value of TypeScript type \<^verbatim>\<open>string | number\<close>.\<close>

datatype scalar = Str string | Num int

text \<open>\<^verbatim>\<open>interface Recommendation { value: string | number; score: number }\<close>\<close>

record Recommendation =
  rec_value :: scalar
  score :: int

text \<open>\<^verbatim>\<open>interface PollResult { score: number; votes: number }\<close>, the accumulator of the reduce.\<close>

record PollResult =
  acc_score :: rat
  acc_votes :: nat

text \<open>
  The poll DTOs of the client library, with the fields the code reads. \<open>totalvotes\<close>
  stands for the number that \<^verbatim>\<open>Number.parseInt\<close> reads from the field's decimal string.
\<close>

record BggPollResultItemDto =
  item_value :: string
  numvotes :: "nat option"

record BggPollResultDto =
  numplayers :: "scalar option"
  resultItemList :: "BggPollResultItemDto list option"

record BggPollDto =
  poll_name :: string
  totalvotes :: "nat option"
  results :: "BggPollResultDto list option"

record BggLinkDto =
  link_type :: string
  link_value :: string

record BggRatingsDto =
  average :: rat
  bayesaverage :: rat
  stddev :: rat
  averageweight :: "rat option"

record BggStatisticsDto =
  ratings :: BggRatingsDto

record BggThingDto =
  thing_id :: int
  thing_thumbnail :: string
  thing_image :: string
  thing_name :: string
  thing_description :: string
  yearpublished :: int
  statistics :: BggStatisticsDto
  links :: "BggLinkDto list option"
  playingtime :: int
  minplaytime :: int
  maxplaytime :: int
  minplayers :: int
  maxplayers :: int
  minage :: int
  polls :: "BggPollDto list option"

text \<open>\<^verbatim>\<open>interface Game\<close> and its nested blocks.\<close>

record GameRating =
  rating_average :: rat
  rating_bayesian :: rat
  rating_stddev :: rat

record GamePlayTime =
  playtime_rated :: int
  playtime_min :: int
  playtime_max :: int

record GameAge =
  age_rated :: int
  age_suggested :: "scalar option"
  age_pollResults :: "Recommendation list option"

record GamePlayerCount =
  players_min :: int
  players_max :: int
  players_suggested :: "scalar option"
  players_pollResults :: "Recommendation list option"

record Game =
  game_id :: int
  thumbnail :: string
  image :: string
  game_name :: string
  description :: string
  yearPublished :: int
  categories :: "string list"
  mechanics :: "string list"
  complexity :: "rat option"
  rating :: GameRating
  playTimeMinutes :: GamePlayTime
  age :: GameAge
  playerCount :: GamePlayerCount

section \<open>RecommendationScorer\<close>

text \<open>\<^verbatim>\<open>Math.round\<close>: the nearest integer, a half rounded towards plus infinity.\<close>

definition Math_round :: "rat \<Rightarrow> int" where
  "Math_round x = \<lfloor>x + 1 / 2\<rfloor>"

definition nullGuard :: "'a option \<Rightarrow> 'a \<Rightarrow> 'a" where
  "nullGuard v defaultValue = (case v of None \<Rightarrow> defaultValue | Some x \<Rightarrow> x)"

subsection \<open>parsePlayerAgePoll\<close>

text \<open>The callback of the inner \<^verbatim>\<open>forEach\<close>; \<open>result\<close> is the array being pushed to.\<close>

definition ageVote :: "nat \<Rightarrow> Recommendation list \<Rightarrow> BggPollResultItemDto \<Rightarrow> Recommendation list" where
  "ageVote totalVotes result v =
     (let numOfVotes = nullGuard (numvotes v) 0 in
      if numOfVotes = 0 then result
      else result @ [\<lparr>rec_value = Str (item_value v),
                      score = Math_round (of_nat numOfVotes / of_nat totalVotes * 100)\<rparr>])"

text \<open>
  The outer \<^verbatim>\<open>forEach\<close>. \<^verbatim>\<open>item.resultItemList.forEach\<close> has no guard: on a group
  without a list it raises.
\<close>

fun ageGroups :: "nat \<Rightarrow> Recommendation list \<Rightarrow> BggPollResultDto list \<Rightarrow> js_error + Recommendation list" where
  "ageGroups totalVotes result [] = Inr result"
| "ageGroups totalVotes result (item # rest) =
     (case resultItemList item of
        None \<Rightarrow> Inl TypeError
      | Some votes \<Rightarrow> ageGroups totalVotes (foldl (ageVote totalVotes) result votes) rest)"

definition parsePlayerAgePoll :: "BggPollDto \<Rightarrow> js_error + Recommendation list option" where
  "parsePlayerAgePoll pollResult =
     (case results pollResult of
        None \<Rightarrow> Inr None
      | Some rs \<Rightarrow>
          if length rs = 0 then Inr None
          else
            let totalVotes = nullGuard (totalvotes pollResult) 0 in
            if totalVotes = 0 then Inr None
            else (case ageGroups totalVotes [] rs of
                    Inl e \<Rightarrow> Inl e
                  | Inr result \<Rightarrow> Inr (if length result = 0 then None else Some result)))"

definition calculateRecommendedAgeScore :: "BggPollDto list option \<Rightarrow> js_error + Recommendation list option" where
  "calculateRecommendedAgeScore ps =
     (case ps of
        None \<Rightarrow> Inr None
      | Some pl \<Rightarrow>
          (case find (\<lambda>p. poll_name p = ''suggested_playerage'') pl of
             None \<Rightarrow> Inr None
           | Some poll \<Rightarrow> parsePlayerAgePoll poll))"

subsection \<open>parseNumPlayersPoll\<close>

text \<open>The callback of \<^verbatim>\<open>reduce\<close>.\<close>

definition tally :: "PollResult \<Rightarrow> BggPollResultItemDto \<Rightarrow> PollResult" where
  "tally acc item =
     (let numOfVotes = nullGuard (numvotes item) 0 in
      if numOfVotes = 0 then acc
      else if item_value item = ''Best'' then
        acc\<lparr>acc_score := acc_score acc + of_nat numOfVotes,
            acc_votes := acc_votes acc + numOfVotes\<rparr>
      else if item_value item = ''Recommended'' then
        acc\<lparr>acc_score := acc_score acc + (1 / 2) * of_nat numOfVotes,
            acc_votes := acc_votes acc + numOfVotes\<rparr>
      else if item_value item = ''Not Recommended'' then
        acc\<lparr>acc_score := acc_score acc - (1 / 2) * of_nat numOfVotes,
            acc_votes := acc_votes acc + numOfVotes\<rparr>
      else acc)"

text \<open>The callback of the \<^verbatim>\<open>forEach\<close> over the result groups.\<close>

definition numPlayersGroup :: "Recommendation list \<Rightarrow> BggPollResultDto \<Rightarrow> Recommendation list" where
  "numPlayersGroup result item =
     (case numplayers item of
        None \<Rightarrow> result
      | Some np \<Rightarrow>
          (case resultItemList item of
             None \<Rightarrow> result
           | Some xs \<Rightarrow>
               let summary = foldl tally \<lparr>acc_score = 0, acc_votes = 0\<rparr> xs in
               if acc_votes summary \<noteq> 0 then
                 result @ [\<lparr>rec_value = np,
                            score = max 0 (Math_round (acc_score summary / of_nat (acc_votes summary) * 100))\<rparr>]
               else result))"

definition parseNumPlayersPoll :: "BggPollDto \<Rightarrow> Recommendation list option" where
  "parseNumPlayersPoll pollResult =
     (case results pollResult of
        None \<Rightarrow> None
      | Some rs \<Rightarrow>
          if length rs = 0 then None
          else
            let result = foldl numPlayersGroup [] rs in
            if length result = 0 then None else Some result)"

definition calculateRecommendedPlayerCountScore :: "BggPollDto list option \<Rightarrow> Recommendation list option" where
  "calculateRecommendedPlayerCountScore ps =
     (case ps of
        None \<Rightarrow> None
      | Some pl \<Rightarrow>
          (case find (\<lambda>p. poll_name p = ''suggested_numplayers'') pl of
             None \<Rightarrow> None
           | Some poll \<Rightarrow> parseNumPlayersPoll poll))"

subsection \<open>getTopRecommendation\<close>

text \<open>The callback of \<^verbatim>\<open>reduce\<close>, and the function; the initial value is the first entry.\<close>

definition better :: "Recommendation \<Rightarrow> Recommendation \<Rightarrow> Recommendation" where
  "better acc item = (if score item > score acc then item else acc)"

definition getTopRecommendation :: "Recommendation list option \<Rightarrow> Recommendation option" where
  "getTopRecommendation recommendations =
     (case recommendations of
        None \<Rightarrow> None
      | Some [] \<Rightarrow> None
      | Some (r0 # rest) \<Rightarrow>
          if list_all (\<lambda>item. score item = 0) (r0 # rest) then None
          else Some (foldl better r0 (r0 # rest)))"

section \<open>RecordNormalizer\<close>

text \<open>
  \<^verbatim>\<open>parseGame\<close>. The description pipeline (two passes of \<^verbatim>\<open>decode\<close> from the
  html-entities package, then three regular-expression replacements) is the parameter
  \<open>sanitize\<close>, a function from strings to strings. The only call that can raise is
  \<^verbatim>\<open>calculateRecommendedAgeScore\<close>.
\<close>

definition parseGame :: "(string \<Rightarrow> string) \<Rightarrow> BggThingDto \<Rightarrow> js_error + Game" where
  "parseGame sanitize thing =
     (let playerCountPoll = calculateRecommendedPlayerCountScore (polls thing) in
      case calculateRecommendedAgeScore (polls thing) of
        Inl e \<Rightarrow> Inl e
      | Inr agePoll \<Rightarrow>
          Inr \<lparr>game_id = thing_id thing,
               thumbnail = thing_thumbnail thing,
               image = thing_image thing,
               game_name = thing_name thing,
               description = sanitize (thing_description thing),
               yearPublished = yearpublished thing,
               categories =
                 (case links thing of
                    None \<Rightarrow> []
                  | Some ls \<Rightarrow> map link_value (filter (\<lambda>link. link_type link = ''boardgamecategory'') ls)),
               mechanics =
                 (case links thing of
                    None \<Rightarrow> []
                  | Some ls \<Rightarrow> map link_value (filter (\<lambda>link. link_type link = ''boardgamemechanic'') ls)),
               complexity = averageweight (ratings (statistics thing)),
               rating =
                 \<lparr>rating_average = average (ratings (statistics thing)),
                  rating_bayesian = bayesaverage (ratings (statistics thing)),
                  rating_stddev = stddev (ratings (statistics thing))\<rparr>,
               playTimeMinutes =
                 \<lparr>playtime_rated = playingtime thing,
                  playtime_min = minplaytime thing,
                  playtime_max = maxplaytime thing\<rparr>,
               age =
                 \<lparr>age_rated = minage thing,
                  age_suggested = map_option rec_value (getTopRecommendation agePoll),
                  age_pollResults = agePoll\<rparr>,
               playerCount =
                 \<lparr>players_min = minplayers thing,
                  players_max = maxplayers thing,
                  players_suggested = map_option rec_value (getTopRecommendation playerCountPoll),
                  players_pollResults = playerCountPoll\<rparr>\<rparr>)"

text \<open>\<^verbatim>\<open>things.map(parseGame)\<close>: the first item that raises ends the map.\<close>

fun mapParseGame :: "(string \<Rightarrow> string) \<Rightarrow> BggThingDto list \<Rightarrow> js_error + Game list" where
  "mapParseGame sanitize [] = Inr []"
| "mapParseGame sanitize (thing # rest) =
     (case parseGame sanitize thing of
        Inl e \<Rightarrow> Inl e
      | Inr g \<Rightarrow>
          (case mapParseGame sanitize rest of
             Inl e \<Rightarrow> Inl e
           | Inr gs \<Rightarrow> Inr (g # gs)))"

section \<open>BatchPlanner, StatsTracker and the ingestion loop\<close>

text \<open>A row of the key source; only its \<^verbatim>\<open>id\<close> column is read.\<close>

record SourceRow =
  row_id :: int

record BatchError =
  ids :: "int list"
  error :: string

text \<open>\<^verbatim>\<open>interface Stats\<close>; the two dates are epoch milliseconds.\<close>

record Stats =
  start_time :: int
  end_time :: "int option"
  batchSize :: int
  availableBatches :: int
  startingBatch :: int
  batchesProcessed :: int
  errors :: "BatchError list"
  averageTimePerBatch :: rat

text \<open>
  What \<^verbatim>\<open>client.thing.query\<close> does in one iteration: it raises, it resolves to
  \<^verbatim>\<open>undefined\<close>/\<^verbatim>\<open>null\<close>, or it resolves to an array.
\<close>

datatype fetch_outcome = Raised | Absent | Returned "BggThingDto list"

text \<open>The side effects of the loop, in the order the code performs them.\<close>

datatype effect =
    LogTotal int
  | LogSkipping int
  | LogBatch int "int list"
  | Query nat "int list"
  | LogNoData
  | LogError string
  | Sleep rat
  | WriteBatch bool int "Game list"
  | LogProgress int int rat rat
  | WriteRaw int "BggThingDto list"
  | LogDebugExit

datatype run_status = Running | Exited int | Crashed js_error

text \<open>
  The module-level variables of the script. \<open>client\<close> numbers the client instances that
  \<^verbatim>\<open>BggClient.Create()\<close> has produced.
\<close>

record loop_state =
  batch :: "SourceRow list"
  df_value :: "SourceRow list"
  currentBatchCount :: int
  totalBatchCount :: int
  stats :: Stats
  client :: nat
  effects :: "effect list"
  status :: run_status

definition sleepTime :: int where
  "sleepTime = 5000"

definition timeBetweenRequests :: rat where
  "timeBetweenRequests = 5000"

text \<open>
  \<^verbatim>\<open>xs.splice(0, deleteCount)\<close> as the pair (removed elements, remaining array); a
  negative count removes nothing.
\<close>

definition splice :: "int \<Rightarrow> 'a list \<Rightarrow> 'a list \<times> 'a list" where
  "splice deleteCount xs = (take (nat deleteCount) xs, drop (nat deleteCount) xs)"

text \<open>
  \<^verbatim>\<open>Math.ceil(df.value.length / batchSize)\<close>. For \<open>batchSize = 0\<close> the JavaScript
  value is not finite; the theorems below assume a positive batch size.
\<close>

definition ceilBatches :: "nat \<Rightarrow> int \<Rightarrow> int" where
  "ceilBatches len bsz = \<lceil>(of_nat len :: rat) / of_int bsz\<rceil>"

text \<open>Lines 309 to 313: the resume offset. The result is the queue and the batch counter.\<close>

definition applySkip :: "int option \<Rightarrow> int \<Rightarrow> SourceRow list \<Rightarrow> SourceRow list \<times> int" where
  "applySkip skipBatchCount bsz rows =
     (case skipBatchCount of
        None \<Rightarrow> (rows, 0)
      | Some n \<Rightarrow> (snd (splice (n * bsz) rows), n))"

text \<open>Lines 296 to 332: the state in which the loop is entered. \<open>now\<close> is the clock.\<close>

definition initialState :: "int option \<Rightarrow> int \<Rightarrow> int \<Rightarrow> SourceRow list \<Rightarrow> loop_state" where
  "initialState skipBatchCount bsz now rows =
     (let total = ceilBatches (length rows) bsz;
          (queue, counter) = applySkip skipBatchCount bsz rows;
          (b, rest) = splice bsz queue
      in \<lparr>batch = b,
          df_value = rest,
          currentBatchCount = counter + 1,
          totalBatchCount = total,
          stats =
            \<lparr>start_time = now,
             end_time = None,
             batchSize = bsz,
             availableBatches = total,
             startingBatch = counter + 1,
             batchesProcessed = 0,
             errors = [],
             averageTimePerBatch = 0\<rparr>,
          client = 0,
          effects =
            LogTotal total #
            (case skipBatchCount of None \<Rightarrow> [] | Some n \<Rightarrow> [LogSkipping (n + 1)]),
          status = Running\<rparr>)"

text \<open>Decimal rendering of an integer, as a template literal prints it.\<close>

fun string_of_nat :: "nat \<Rightarrow> string" where
  "string_of_nat n =
     (if n < 10 then [''0123456789'' ! n]
      else string_of_nat (n div 10) @ [''0123456789'' ! (n mod 10)])"

declare string_of_nat.simps [simp del]

definition string_of_int :: "int \<Rightarrow> string" where
  "string_of_int i = (if i < 0 then CHR ''-'' # string_of_nat (nat (- i)) else string_of_nat (nat i))"

definition pushError :: "int list \<Rightarrow> string \<Rightarrow> Stats \<Rightarrow> Stats" where
  "pushError is e st = st\<lparr>errors := errors st @ [\<lparr>ids = is, error = e\<rparr>]\<rparr>"

text \<open>Lines 359 to 368: the \<^verbatim>\<open>catch\<close> block, ending in \<^verbatim>\<open>continue\<close>.\<close>

definition catchBlock :: "int list \<Rightarrow> loop_state \<Rightarrow> loop_state" where
  "catchBlock is s =
     (let msg = ''Error fetching batch '' @ string_of_int (currentBatchCount s)
                @ '', recreating client and retrying after '' @ string_of_int (sleepTime div 1000)
                @ ''sec...''
      in s\<lparr>stats := pushError is msg (stats s),
           client := client s + 1,
           effects := effects s @ [LogError msg, Sleep (of_int sleepTime)]\<rparr>)"

text \<open>Lines 354 to 358: the branch for an absent or empty result.\<close>

definition noData :: "int list \<Rightarrow> loop_state \<Rightarrow> loop_state" where
  "noData is s =
     s\<lparr>stats := pushError is ''No data returned from BGG API'' (stats s),
       effects := effects s @ [LogNoData]\<rparr>"

text \<open>
  Lines 370 to 405: write the batch, take the next one, update the statistics, then leave
  (debug mode) or pace and count on. An exception of \<^verbatim>\<open>parseGame\<close> is not caught.
\<close>

definition afterFetch :: "bool \<Rightarrow> int \<Rightarrow> (string \<Rightarrow> string) \<Rightarrow> rat \<Rightarrow> BggThingDto list \<Rightarrow> loop_state \<Rightarrow> loop_state" where
  "afterFetch debug bsz sanitize timeTaken things s =
     (case mapParseGame sanitize things of
        Inl e \<Rightarrow> s\<lparr>status := Crashed e\<rparr>
      | Inr games \<Rightarrow>
          let n = currentBatchCount s;
              (b, rest) = splice bsz (df_value s);
              processed = batchesProcessed (stats s) + 1;
              avg = (averageTimePerBatch (stats s) * of_int (processed - 1) + timeTaken) / of_int processed;
              s2 = s\<lparr>batch := b,
                     df_value := rest,
                     stats := (stats s)\<lparr>batchesProcessed := processed, averageTimePerBatch := avg\<rparr>,
                     effects := effects s @ [WriteBatch debug n games,
                                             LogProgress n (totalBatchCount s) timeTaken avg]\<rparr>
          in if debug then
               s2\<lparr>effects := effects s2 @ [WriteRaw n things, LogDebugExit], status := Exited 0\<rparr>
             else
               (let s3 = (if timeTaken < timeBetweenRequests
                          then s2\<lparr>effects := effects s2 @ [Sleep (timeBetweenRequests - timeTaken)]\<rparr>
                          else s2)
                in s3\<lparr>currentBatchCount := n + 1\<rparr>))"

text \<open>
  One pass through the body of the \<^verbatim>\<open>while\<close> loop. \<open>outcome\<close> is what the remote call
  does and \<open>timeTaken\<close> what the clock measures at line 376.
\<close>

definition iteration :: "bool \<Rightarrow> int \<Rightarrow> (string \<Rightarrow> string) \<Rightarrow> fetch_outcome \<Rightarrow> rat \<Rightarrow> loop_state \<Rightarrow> loop_state" where
  "iteration debug bsz sanitize outcome timeTaken s =
     (let is = map row_id (batch s);
          s1 = s\<lparr>effects := effects s @ [LogBatch (currentBatchCount s) is, Query (client s) is]\<rparr>
      in case outcome of
           Raised \<Rightarrow> catchBlock is s1
         | Absent \<Rightarrow> afterFetch debug bsz sanitize timeTaken [] (noData is s1)
         | Returned things \<Rightarrow>
             if length things = 0 then afterFetch debug bsz sanitize timeTaken [] (noData is s1)
             else afterFetch debug bsz sanitize timeTaken things s1)"

text \<open>
  The \<^verbatim>\<open>while\<close> loop, driven by what the environment does in each pass. The loop has no
  bound of its own: it runs for as long as the environment list lasts, the batch is not
  empty and the process has not ended.
\<close>

fun run :: "bool \<Rightarrow> int \<Rightarrow> (string \<Rightarrow> string) \<Rightarrow> (fetch_outcome \<times> rat) list \<Rightarrow> loop_state \<Rightarrow> loop_state" where
  "run debug bsz sanitize [] s = s"
| "run debug bsz sanitize ((outcome, timeTaken) # env) s =
     (if status s = Running \<and> length (batch s) > 0
      then run debug bsz sanitize env (iteration debug bsz sanitize outcome timeTaken s)
      else s)"

section \<open>The operations as the specification words them\<close>

text \<open>
  The definitions of this section follow the sentences of the specification, not the code;
  the refinement theorems below compare them with the functions of the code.
\<close>

subsection \<open>scorePlayerCountPoll\<close>

definition optionWeight :: "string \<Rightarrow> rat" where
  "optionWeight v =
     (if v = ''Best'' then 1
      else if v = ''Recommended'' then 1 / 2
      else if v = ''Not Recommended'' then - (1 / 2)
      else 0)"

definition groupTally :: "BggPollResultItemDto list \<Rightarrow> rat" where
  "groupTally xs = (\<Sum>item\<leftarrow>xs. optionWeight (item_value item) * of_nat (nullGuard (numvotes item) 0))"

definition groupVoteCount :: "BggPollResultItemDto list \<Rightarrow> nat" where
  "groupVoteCount xs =
     (\<Sum>item\<leftarrow>xs. if item_value item \<in> {''Best'', ''Recommended'', ''Not Recommended''}
                  then nullGuard (numvotes item) 0 else 0)"

definition groupRecommendation :: "BggPollResultDto \<Rightarrow> Recommendation option" where
  "groupRecommendation g =
     (case numplayers g of
        None \<Rightarrow> None
      | Some bucket \<Rightarrow>
          let xs = (case resultItemList g of None \<Rightarrow> [] | Some l \<Rightarrow> l) in
          if groupVoteCount xs = 0 then None
          else Some \<lparr>rec_value = bucket,
                     score = max 0 (round (100 * groupTally xs / rat_of_nat (groupVoteCount xs)))\<rparr>)"

definition scorePlayerCountPoll :: "BggPollDto list option \<Rightarrow> Recommendation list option" where
  "scorePlayerCountPoll ps =
     (case ps of
        None \<Rightarrow> None
      | Some pl \<Rightarrow>
          (case find (\<lambda>p. poll_name p = ''suggested_numplayers'') pl of
             None \<Rightarrow> None
           | Some poll \<Rightarrow>
               let emitted = List.map_filter groupRecommendation
                               (case results poll of None \<Rightarrow> [] | Some gs \<Rightarrow> gs)
               in if emitted = [] then None else Some emitted))"

subsection \<open>scoreAgePoll\<close>

definition agePoll :: "BggPollDto list option \<Rightarrow> BggPollDto option" where
  "agePoll ps = (case ps of None \<Rightarrow> None | Some pl \<Rightarrow> find (\<lambda>p. poll_name p = ''suggested_playerage'') pl)"

definition pollGroups :: "BggPollDto \<Rightarrow> BggPollResultDto list" where
  "pollGroups poll = (case results poll of None \<Rightarrow> [] | Some gs \<Rightarrow> gs)"

definition voteEntries :: "BggPollResultDto list \<Rightarrow> BggPollResultItemDto list" where
  "voteEntries gs = concat (map (\<lambda>g. case resultItemList g of None \<Rightarrow> [] | Some l \<Rightarrow> l) gs)"

definition ageRecommendation :: "nat \<Rightarrow> BggPollResultItemDto \<Rightarrow> Recommendation" where
  "ageRecommendation totalVotes v =
     \<lparr>rec_value = Str (item_value v),
      score = round (100 * rat_of_nat (nullGuard (numvotes v) 0) / rat_of_nat totalVotes)\<rparr>"

definition scoreAgePoll :: "BggPollDto list option \<Rightarrow> Recommendation list option" where
  "scoreAgePoll ps =
     (case agePoll ps of
        None \<Rightarrow> None
      | Some poll \<Rightarrow>
          let totalVotes = nullGuard (totalvotes poll) 0;
              voted = filter (\<lambda>v. 0 < nullGuard (numvotes v) 0) (voteEntries (pollGroups poll))
          in if pollGroups poll = [] \<or> totalVotes = 0 \<or> voted = [] then None
             else Some (map (ageRecommendation totalVotes) voted))"

text \<open>
  Well-formedness of the age poll: every result group carries its list of vote entries.
  \<^verbatim>\<open>parsePlayerAgePoll\<close> reads the list without a guard.
\<close>

definition ageListsPresent :: "BggPollDto list option \<Rightarrow> bool" where
  "ageListsPresent ps =
     (case agePoll ps of
        None \<Rightarrow> True
      | Some poll \<Rightarrow> list_all (\<lambda>g. resultItemList g \<noteq> None) (pollGroups poll))"

section \<open>Observations of a run\<close>

text \<open>The batches that the loop announces and requests: index and identifier list.\<close>

fun batchOf :: "effect \<Rightarrow> (int \<times> int list) option" where
  "batchOf (LogBatch i is) = Some (i, is)"
| "batchOf _ = None"

definition loggedBatches :: "effect list \<Rightarrow> (int \<times> int list) list" where
  "loggedBatches es = List.map_filter batchOf es"

text \<open>The durations of the batches that were completed, as the progress line reports them.\<close>

fun timeOf :: "effect \<Rightarrow> rat option" where
  "timeOf (LogProgress i n timeTaken avg) = Some timeTaken"
| "timeOf _ = None"

definition progressTimes :: "effect list \<Rightarrow> rat list" where
  "progressTimes es = List.map_filter timeOf es"

text \<open>The array that the code goes on with after the remote call has resolved.\<close>

fun fetched :: "fetch_outcome \<Rightarrow> BggThingDto list" where
  "fetched (Returned things) = things"
| "fetched _ = []"

text \<open>The rows of batch number \<open>i\<close> (counted from 1) of a key list cut into batches of \<open>b\<close>.\<close>

definition batchRows :: "nat \<Rightarrow> SourceRow list \<Rightarrow> int \<Rightarrow> SourceRow list" where
  "batchRows b rows i = take b (drop (b * nat (i - 1)) rows)"

text \<open>Parts of one pass through the loop body, named for the proofs.\<close>

definition errorMessage :: "int \<Rightarrow> string" where
  "errorMessage n = ''Error fetching batch '' @ string_of_int n
                @ '', recreating client and retrying after '' @ string_of_int (sleepTime div 1000)
                @ ''sec...''"

definition entered :: "fetch_outcome \<Rightarrow> loop_state \<Rightarrow> loop_state" where
  "entered outcome s =
     (let is = map row_id (batch s);
          s1 = s\<lparr>effects := effects s @ [LogBatch (currentBatchCount s) is, Query (client s) is]\<rparr>
      in if fetched outcome = [] then noData is s1 else s1)"

definition pacing :: "bool \<Rightarrow> int \<Rightarrow> rat \<Rightarrow> BggThingDto list \<Rightarrow> effect list" where
  "pacing debug n t things =
     (if debug then [WriteRaw n things, LogDebugExit]
      else if t < timeBetweenRequests then [Sleep (timeBetweenRequests - t)] else [])"

text \<open>
  The invariant of the batch plan, for a batch size \<open>b\<close> and \<open>n\<close> skipped batches: after
  \<open>k\<close> completed batches the current batch is the next \<open>b\<close> rows, and every announced
  batch is the slice of the key list that its index names.
\<close>

definition announced :: "nat \<Rightarrow> nat \<Rightarrow> SourceRow list \<Rightarrow> int \<times> int list \<Rightarrow> bool" where
  "announced b n rows e \<longleftrightarrow>
     int n < fst e \<and> snd e \<noteq> [] \<and> snd e = map row_id (batchRows b rows (fst e))"

definition planned :: "nat \<Rightarrow> nat \<Rightarrow> SourceRow list \<Rightarrow> loop_state \<Rightarrow> bool" where
  "planned b n rows s \<longleftrightarrow>
     (\<exists>k. batchesProcessed (stats s) = int k
        \<and> batch s = take b (drop (b * (n + k)) rows)
        \<and> df_value s = drop (b * (n + k) + b) rows
        \<and> (status s = Running \<longrightarrow> currentBatchCount s = int (n + k) + 1))
     \<and> (\<forall>e \<in> set (loggedBatches (effects s)). announced b n rows e)"

text \<open>A pass completes when the remote call does not raise and every item is normalized.\<close>

definition completes :: "(string \<Rightarrow> string) \<Rightarrow> fetch_outcome \<Rightarrow> bool" where
  "completes sanitize outcome =
     (case outcome of
        Raised \<Rightarrow> False
      | _ \<Rightarrow> (case mapParseGame sanitize (fetched outcome) of Inl e \<Rightarrow> False | Inr games \<Rightarrow> True))"


section \<open>Concrete inputs\<close>

text \<open>A player-count poll in which Not Recommended dominates the first group.\<close>

definition examplePlayersPoll :: BggPollDto where
  "examplePlayersPoll =
     \<lparr>poll_name = ''suggested_numplayers'', totalvotes = Some 10,
      results = Some [\<lparr>numplayers = Some (Str ''1''),
                        resultItemList = Some [\<lparr>item_value = ''Best'', numvotes = Some 0\<rparr>,
                                               \<lparr>item_value = ''Recommended'', numvotes = Some 1\<rparr>,
                                               \<lparr>item_value = ''Not Recommended'', numvotes = Some 9\<rparr>]\<rparr>,
                      \<lparr>numplayers = Some (Str ''2''),
                        resultItemList = Some [\<lparr>item_value = ''Best'', numvotes = Some 10\<rparr>,
                                               \<lparr>item_value = ''Recommended'', numvotes = None\<rparr>,
                                               \<lparr>item_value = ''Not Recommended'', numvotes = Some 0\<rparr>]\<rparr>,
                      \<lparr>numplayers = Some (Str ''3''),
                        resultItemList = Some [\<lparr>item_value = ''Best'', numvotes = Some 2\<rparr>,
                                               \<lparr>item_value = ''Recommended'', numvotes = Some 5\<rparr>,
                                               \<lparr>item_value = ''Not Recommended'', numvotes = Some 1\<rparr>]\<rparr>]\<rparr>"

definition exampleAgePoll :: BggPollDto where
  "exampleAgePoll =
     \<lparr>poll_name = ''suggested_playerage'', totalvotes = Some 8,
      results = Some [\<lparr>numplayers = None,
                        resultItemList = Some [\<lparr>item_value = ''5'', numvotes = Some 0\<rparr>,
                                               \<lparr>item_value = ''6'', numvotes = Some 3\<rparr>,
                                               \<lparr>item_value = ''8'', numvotes = Some 5\<rparr>]\<rparr>]\<rparr>"

definition exampleThing :: BggThingDto where
  "exampleThing =
     \<lparr>thing_id = 13, thing_thumbnail = ''t.png'', thing_image = ''i.png'', thing_name = ''Catan'',
      thing_description = ''Trade and build'', yearpublished = 1995,
      statistics = \<lparr>ratings = \<lparr>average = 7, bayesaverage = 69 / 10, stddev = 3 / 2,
                                averageweight = Some (23 / 10)\<rparr>\<rparr>,
      links = None,
      playingtime = 120, minplaytime = 60, maxplaytime = 120,
      minplayers = 3, maxplayers = 4, minage = 10,
      polls = Some [examplePlayersPoll, exampleAgePoll]\<rparr>"

text \<open>The list of the specification's example for the top recommendation.\<close>

definition exampleRecommendations :: "Recommendation list" where
  "exampleRecommendations =
     [\<lparr>rec_value = Str ''A'', score = 10\<rparr>, \<lparr>rec_value = Str ''B'', score = 30\<rparr>,
      \<lparr>rec_value = Str ''B2'', score = 30\<rparr>]"

text \<open>A key source of 95 rows with the identifiers 1 to 95, and one of three rows.\<close>

definition exampleRows :: "SourceRow list" where
  "exampleRows = map (\<lambda>i. \<lparr>row_id = int i\<rparr>) [1..<96]"

definition threeRows :: "SourceRow list" where
  "threeRows = [\<lparr>row_id = 11\<rparr>, \<lparr>row_id = 22\<rparr>, \<lparr>row_id = 33\<rparr>]"

text \<open>Three passes in which the remote call returns one item, taking 1, 2 and 4.5 seconds.\<close>

definition exampleEnv :: "(fetch_outcome \<times> rat) list" where
  "exampleEnv = [(Returned [exampleThing], 1000), (Returned [exampleThing], 2000),
                 (Returned [exampleThing], 4500)]"

text \<open>
  An item whose age poll has a result group without its list of vote entries, and the same
  group in a player-count poll.
\<close>

definition bareGroup :: BggPollResultDto where
  "bareGroup = \<lparr>numplayers = Some (Str ''2''), resultItemList = None\<rparr>"

definition bareAgeThing :: BggThingDto where
  "bareAgeThing =
     exampleThing\<lparr>polls := Some [\<lparr>poll_name = ''suggested_playerage'', totalvotes = Some 3,
                                   results = Some [bareGroup]\<rparr>]\<rparr>"

definition barePlayersThing :: BggThingDto where
  "barePlayersThing =
     exampleThing\<lparr>polls := Some [\<lparr>poll_name = ''suggested_numplayers'', totalvotes = Some 3,
                                   results = Some [bareGroup]\<rparr>]\<rparr>"

section \<open>Properties of the scorer\<close>

subsection \<open>Player-count poll\<close>

lemma foldl_tally:
  "foldl tally acc xs =
     \<lparr>acc_score = acc_score acc + groupTally xs, acc_votes = acc_votes acc + groupVoteCount xs\<rparr>"
proof (induction xs arbitrary: acc)
  case Nil
  show ?case by (simp add: groupTally_def groupVoteCount_def)
next
  case (Cons x xs)
  have step: "acc_score (tally acc x) = acc_score acc + optionWeight (item_value x) * of_nat (nullGuard (numvotes x) 0)
     \<and> acc_votes (tally acc x) = acc_votes acc + (if item_value x \<in> {''Best'', ''Recommended'', ''Not Recommended''}
                  then nullGuard (numvotes x) 0 else 0)"
    by (simp add: tally_def optionWeight_def Let_def)
  show ?case
    unfolding foldl_Cons Cons.IH
    using step by (simp add: groupTally_def groupVoteCount_def)
qed

lemma numPlayersGroup_eq:
  "numPlayersGroup result g = result @ (case groupRecommendation g of None \<Rightarrow> [] | Some r \<Rightarrow> [r])"
proof -
  have nil: "groupVoteCount [] = 0" by (simp add: groupVoteCount_def)
  show ?thesis
    by (simp add: numPlayersGroup_def groupRecommendation_def foldl_tally Let_def nil mult.commute
          Math_round_def round_def split: option.splits)
qed

lemma foldl_numPlayersGroup:
  "foldl numPlayersGroup result gs = result @ List.map_filter groupRecommendation gs"
proof (induction gs arbitrary: result)
  case Nil
  show ?case by simp
next
  case (Cons g gs)
  have "foldl numPlayersGroup result (g # gs) = numPlayersGroup result g @ List.map_filter groupRecommendation gs"
    by (simp only: foldl_Cons Cons.IH)
  also have "\<dots> = (result @ (case groupRecommendation g of None \<Rightarrow> [] | Some r \<Rightarrow> [r])) @ List.map_filter groupRecommendation gs"
    by (simp only: numPlayersGroup_eq)
  also have "\<dots> = result @ List.map_filter groupRecommendation (g # gs)"
    by (cases "groupRecommendation g") simp_all
  finally show ?case .
qed

lemma playerCountScore_eq_spec:
  "calculateRecommendedPlayerCountScore ps = scorePlayerCountPoll ps"
  by (simp add: calculateRecommendedPlayerCountScore_def scorePlayerCountPoll_def
        parseNumPlayersPoll_def foldl_numPlayersGroup Let_def
      split: option.splits)


subsection \<open>Age poll\<close>

lemma foldl_ageVote:
  "foldl (ageVote tv) result vs =
     result @ map (ageRecommendation tv) (filter (\<lambda>v. 0 < nullGuard (numvotes v) 0) vs)"
proof (induction vs arbitrary: result)
  case Nil
  show ?case by simp
next
  case (Cons v vs)
  have "ageVote tv result v =
          result @ map (ageRecommendation tv) (filter (\<lambda>v. 0 < nullGuard (numvotes v) 0) [v])"
    by (simp add: ageVote_def ageRecommendation_def Let_def mult.commute Math_round_def round_def)
  then show ?case
    by (simp add: Cons.IH)
qed

lemma ageGroups_present:
  "list_all (\<lambda>g. resultItemList g \<noteq> None) gs \<Longrightarrow>
   ageGroups tv result gs =
     Inr (result @ map (ageRecommendation tv) (filter (\<lambda>v. 0 < nullGuard (numvotes v) 0) (voteEntries gs)))"
proof (induction gs arbitrary: result)
  case Nil
  show ?case by (simp add: voteEntries_def)
next
  case (Cons g gs)
  then obtain l where l: "resultItemList g = Some l" by auto
  have rest: "list_all (\<lambda>g. resultItemList g \<noteq> None) gs" using Cons.prems by simp
  show ?case
    using l by (simp add: Cons.IH [OF rest] foldl_ageVote voteEntries_def)
qed

lemma ageGroups_missing:
  "\<not> list_all (\<lambda>g. resultItemList g \<noteq> None) gs \<Longrightarrow> ageGroups tv result gs = Inl TypeError"
  by (induction gs arbitrary: result) (auto split: option.splits)

lemma calculateRecommendedAgeScore_agePoll:
  "calculateRecommendedAgeScore ps =
     (case agePoll ps of None \<Rightarrow> Inr None | Some poll \<Rightarrow> parsePlayerAgePoll poll)"
  by (cases ps) (simp_all add: calculateRecommendedAgeScore_def agePoll_def)

lemma ageScore_eq_spec:
  assumes "ageListsPresent ps"
  shows "calculateRecommendedAgeScore ps = Inr (scoreAgePoll ps)"
proof (cases "agePoll ps")
  case None
  then show ?thesis
    by (simp add: calculateRecommendedAgeScore_agePoll scoreAgePoll_def)
next
  case (Some poll)
  then have pres: "list_all (\<lambda>g. resultItemList g \<noteq> None) (pollGroups poll)"
    using assms by (simp add: ageListsPresent_def)
  have calc: "calculateRecommendedAgeScore ps = parsePlayerAgePoll poll"
    using Some by (simp add: calculateRecommendedAgeScore_agePoll)
  have "parsePlayerAgePoll poll = Inr (scoreAgePoll ps)"
  proof (cases "results poll")
    case None
    then show ?thesis using Some
      by (simp add: parsePlayerAgePoll_def scoreAgePoll_def pollGroups_def)
  next
    case (Some gs)
    then have gs: "pollGroups poll = gs" by (simp add: pollGroups_def)
    show ?thesis
      using Some \<open>agePoll ps = Some poll\<close> ageGroups_present [OF pres [unfolded gs]]
      by (simp add: parsePlayerAgePoll_def scoreAgePoll_def gs Let_def)
  qed
  with calc show ?thesis by simp
qed

lemma ageScore_raises:
  "\<not> ageListsPresent ps \<Longrightarrow> agePoll ps = Some poll \<Longrightarrow> nullGuard (totalvotes poll) 0 \<noteq> 0 \<Longrightarrow>
   calculateRecommendedAgeScore ps = Inl TypeError"
  by (auto simp add: calculateRecommendedAgeScore_agePoll ageListsPresent_def
        parsePlayerAgePoll_def pollGroups_def ageGroups_missing Let_def split: option.splits)



subsection \<open>Score bounds of the player-count poll\<close>

lemma optionWeight_le:
  "optionWeight (item_value x) * rat_of_nat n
     \<le> rat_of_nat (if item_value x \<in> {''Best'', ''Recommended'', ''Not Recommended''} then n else 0)"
  by (simp add: optionWeight_def)

lemma groupTally_le_votes: "groupTally xs \<le> of_nat (groupVoteCount xs)"
proof (induction xs)
  case Nil
  show ?case by (simp add: groupTally_def groupVoteCount_def)
next
  case (Cons x xs)
  have "groupTally (x # xs) = optionWeight (item_value x) * of_nat (nullGuard (numvotes x) 0) + groupTally xs"
    by (simp add: groupTally_def)
  moreover have "groupVoteCount (x # xs) =
      (if item_value x \<in> {''Best'', ''Recommended'', ''Not Recommended''} then nullGuard (numvotes x) 0 else 0)
      + groupVoteCount xs"
    by (simp add: groupVoteCount_def)
  ultimately show ?case
    using Cons.IH optionWeight_le [of x "nullGuard (numvotes x) 0"]
    by simp
qed

lemma round_le_100: "(x::rat) \<le> 100 \<Longrightarrow> round x \<le> 100"
  unfolding round_def by linarith

lemma groupRecommendation_score:
  assumes "groupRecommendation g = Some r"
  shows "0 \<le> score r \<and> score r \<le> 100"
proof -
  obtain xs where pos: "groupVoteCount xs \<noteq> 0"
    and r: "score r = max 0 (round (100 * groupTally xs / of_nat (groupVoteCount xs)))"
    using assms
    by (auto simp add: groupRecommendation_def Let_def split: option.splits if_splits)
  have "100 * groupTally xs / of_nat (groupVoteCount xs) \<le> 100"
    using pos groupTally_le_votes [of xs] by (simp add: divide_le_eq)
  then show ?thesis
    using round_le_100 r by simp
qed

lemma playerCount_scores_bounded:
  assumes "calculateRecommendedPlayerCountScore ps = Some rs" and "r \<in> set rs"
  shows "0 \<le> score r \<and> score r \<le> 100"
proof -
  from assms(1) obtain gs where "rs = List.map_filter groupRecommendation gs"
    by (auto simp add: playerCountScore_eq_spec scorePlayerCountPoll_def Let_def
        split: option.splits if_splits)
  with assms(2) obtain g where "groupRecommendation g = Some r"
    by (auto simp add: List.map_filter_def)
  then show ?thesis by (rule groupRecommendation_score)
qed

lemma examplePlayersPoll_scores:
  "calculateRecommendedPlayerCountScore (Some [examplePlayersPoll])
     = Some [\<lparr>rec_value = Str ''1'', score = 0\<rparr>, \<lparr>rec_value = Str ''2'', score = 100\<rparr>,
             \<lparr>rec_value = Str ''3'', score = 50\<rparr>]"
  by (simp add: calculateRecommendedPlayerCountScore_def parseNumPlayersPoll_def
        numPlayersGroup_def tally_def nullGuard_def Math_round_def Let_def examplePlayersPoll_def
        floor_eq_iff)

text \<open>
  C5. Every recommendation that the player-count scorer emits has a score between 0 and
  100, also where Not Recommended dominates (vote counts are natural numbers).
\<close>

theorem playerCount_score_in_range:
  "calculateRecommendedPlayerCountScore ps = Some rs \<Longrightarrow> r \<in> set rs \<Longrightarrow>
   0 \<le> score r \<and> score r \<le> 100"
  by (rule playerCount_scores_bounded)

theorem playerCount_score_in_range_witness:
  "calculateRecommendedPlayerCountScore (Some [examplePlayersPoll])
     = Some [\<lparr>rec_value = Str ''1'', score = 0\<rparr>, \<lparr>rec_value = Str ''2'', score = 100\<rparr>,
             \<lparr>rec_value = Str ''3'', score = 50\<rparr>]
   \<and> \<lparr>rec_value = Str ''1'', score = 0\<rparr>
       \<in> set [\<lparr>rec_value = Str ''1'', score = 0\<rparr>, \<lparr>rec_value = Str ''2'', score = 100\<rparr>,
               \<lparr>rec_value = Str ''3'', score = 50\<rparr>]
   \<and> 0 \<le> score \<lparr>rec_value = Str ''1'', score = 0\<rparr>
   \<and> score \<lparr>rec_value = Str ''1'', score = 0\<rparr> \<le> 100"
proof -
  have m: "\<lparr>rec_value = Str ''1'', score = 0\<rparr>
       \<in> set [\<lparr>rec_value = Str ''1'', score = 0\<rparr>, \<lparr>rec_value = Str ''2'', score = 100\<rparr>,
               \<lparr>rec_value = Str ''3'', score = 50\<rparr>]"
    by simp
  from playerCount_score_in_range [OF examplePlayersPoll_scores m] examplePlayersPoll_scores m
  show ?thesis by blast
qed

subsection \<open>Top recommendation\<close>

lemma foldl_better_first_max:
  "\<exists>ys zs. a # xs = ys @ foldl better a xs # zs
     \<and> (\<forall>y\<in>set ys. score y < score (foldl better a xs))
     \<and> (\<forall>z\<in>set zs. score z \<le> score (foldl better a xs))"
proof (induction xs rule: rev_induct)
  case Nil
  have "[a] = [] @ a # []" by simp
  then show ?case by (metis append_Nil empty_iff foldl_Nil list.set(1))
next
  case (snoc x xs)
  then obtain ys zs where d: "a # xs = ys @ foldl better a xs # zs"
    and lo: "\<forall>y\<in>set ys. score y < score (foldl better a xs)"
    and hi: "\<forall>z\<in>set zs. score z \<le> score (foldl better a xs)" by blast
  let ?r = "foldl better a xs"
  show ?case
  proof (cases "score x > score ?r")
    case True
    then have r: "foldl better a (xs @ [x]) = x" by (simp add: better_def)
    have "a # xs @ [x] = (ys @ ?r # zs) @ x # []" using d by simp
    moreover have "\<forall>y\<in>set (ys @ ?r # zs). score y < score x"
      using lo hi True by auto
    ultimately show ?thesis unfolding r by (metis empty_iff list.set(1))
  next
    case False
    then have r: "foldl better a (xs @ [x]) = ?r" by (simp add: better_def)
    have "a # xs @ [x] = ys @ ?r # (zs @ [x])" using d by simp
    moreover have "\<forall>z\<in>set (zs @ [x]). score z \<le> score ?r" using hi False by auto
    ultimately show ?thesis unfolding r using lo by blast
  qed
qed

lemma getTopRecommendation_None:
  "getTopRecommendation recs = None \<longleftrightarrow>
     recs = None \<or> recs = Some [] \<or> (\<exists>rs. recs = Some rs \<and> (\<forall>r\<in>set rs. score r = 0))"
  by (auto simp add: getTopRecommendation_def list_all_iff split: option.splits list.splits)

lemma getTopRecommendation_first_max:
  assumes "\<exists>r\<in>set rs. score r \<noteq> 0"
  shows "\<exists>best ys zs. getTopRecommendation (Some rs) = Some best \<and> rs = ys @ best # zs
           \<and> (\<forall>y\<in>set ys. score y < score best) \<and> (\<forall>z\<in>set zs. score z \<le> score best)"
proof -
  from assms obtain r0 rest where rs: "rs = r0 # rest" by (cases rs) auto
  have nz: "\<not> list_all (\<lambda>item. score item = 0) (r0 # rest)"
    using assms unfolding rs list_all_iff by blast
  have "foldl better r0 (r0 # rest) = foldl better r0 rest" by (simp add: better_def)
  with nz have best: "getTopRecommendation (Some rs) = Some (foldl better r0 rest)"
    unfolding rs getTopRecommendation_def by simp
  from foldl_better_first_max [of r0 rest]
  obtain ys zs where "r0 # rest = ys @ foldl better r0 rest # zs"
    and "\<forall>y\<in>set ys. score y < score (foldl better r0 rest)"
    and "\<forall>z\<in>set zs. score z \<le> score (foldl better r0 rest)" by blast
  with best rs show ?thesis by blast
qed

lemma getTopRecommendation_member:
  "getTopRecommendation recs = Some best \<Longrightarrow> \<exists>rs. recs = Some rs \<and> best \<in> set rs"
proof -
  assume t: "getTopRecommendation recs = Some best"
  then obtain rs where rs: "recs = Some rs" by (cases recs) (simp_all add: getTopRecommendation_def)
  have "\<exists>r\<in>set rs. score r \<noteq> 0"
    using t getTopRecommendation_None [of recs] rs by auto
  from getTopRecommendation_first_max [OF this] t rs show ?thesis by auto
qed

lemma parseGame_suggested_in_pollResults:
  assumes "parseGame sanitize thing = Inr g"
  shows "(\<forall>v. players_suggested (playerCount g) = Some v \<longrightarrow>
            (\<exists>rs r. players_pollResults (playerCount g) = Some rs \<and> r \<in> set rs \<and> rec_value r = v))
       \<and> (\<forall>v. age_suggested (age g) = Some v \<longrightarrow>
            (\<exists>rs r. age_pollResults (age g) = Some rs \<and> r \<in> set rs \<and> rec_value r = v))"
proof -
  from assms obtain agePoll where a: "calculateRecommendedAgeScore (polls thing) = Inr agePoll"
    by (cases "calculateRecommendedAgeScore (polls thing)") (simp_all add: parseGame_def)
  have p: "players_suggested (playerCount g) =
             map_option rec_value (getTopRecommendation (players_pollResults (playerCount g)))"
    using assms a by (auto simp add: parseGame_def Let_def)
  have q: "age_suggested (age g) = map_option rec_value (getTopRecommendation (age_pollResults (age g)))"
    using assms a by (auto simp add: parseGame_def Let_def)
  show ?thesis
    unfolding p q using getTopRecommendation_member by fastforce
qed

lemma exampleThing_parses:
  "\<exists>g. parseGame (\<lambda>d. d) exampleThing = Inr g
       \<and> players_suggested (playerCount g) = Some (Str ''2'')
       \<and> age_suggested (age g) = Some (Str ''8'')
       \<and> categories g = [] \<and> mechanics g = []"
proof -
  have find_players: "find (\<lambda>p. poll_name p = ''suggested_numplayers'') [examplePlayersPoll, exampleAgePoll]
      = Some examplePlayersPoll"
    by (simp add: examplePlayersPoll_def)
  have find_age: "find (\<lambda>p. poll_name p = ''suggested_playerage'') [examplePlayersPoll, exampleAgePoll]
      = Some exampleAgePoll"
    by (simp add: examplePlayersPoll_def exampleAgePoll_def)
  have players: "calculateRecommendedPlayerCountScore (polls exampleThing)
      = calculateRecommendedPlayerCountScore (Some [examplePlayersPoll])"
    using find_players
    by (simp add: calculateRecommendedPlayerCountScore_def exampleThing_def examplePlayersPoll_def)
  have ages: "calculateRecommendedAgeScore (polls exampleThing)
      = Inr (Some [\<lparr>rec_value = Str ''6'', score = 38\<rparr>, \<lparr>rec_value = Str ''8'', score = 63\<rparr>])"
    using find_age
    by (simp add: calculateRecommendedAgeScore_def parsePlayerAgePoll_def ageVote_def nullGuard_def
          Math_round_def Let_def exampleThing_def exampleAgePoll_def)
  show ?thesis
    by (simp add: parseGame_def players examplePlayersPoll_scores ages getTopRecommendation_def
          better_def Let_def)
      (simp add: exampleThing_def)
qed

text \<open>
  C4. On a list with an entry of non-zero score, \<open>getTopRecommendation\<close> returns the
  first element of maximal score, which is an element of the list; it returns absent
  exactly when the list is absent, empty or all scores are 0; on the list of the
  specification's example it returns \<open>{B, 30}\<close>; and in a record that \<open>parseGame\<close>
  returns, a suggested value is the value of an entry of the poll results beside it.
\<close>

theorem getTopRecommendation_first_maximum:
  "((\<exists>r\<in>set rs. score r \<noteq> 0) \<longrightarrow>
      (\<exists>best ys zs. getTopRecommendation (Some rs) = Some best \<and> rs = ys @ best # zs
         \<and> (\<forall>y\<in>set ys. score y < score best) \<and> (\<forall>z\<in>set zs. score z \<le> score best)))
   \<and> (getTopRecommendation recs = None \<longleftrightarrow>
        recs = None \<or> recs = Some [] \<or> (\<exists>rs'. recs = Some rs' \<and> (\<forall>r\<in>set rs'. score r = 0)))
   \<and> getTopRecommendation (Some exampleRecommendations) = Some \<lparr>rec_value = Str ''B'', score = 30\<rparr>
   \<and> (parseGame sanitize thing = Inr g \<longrightarrow>
        (\<forall>v. players_suggested (playerCount g) = Some v \<longrightarrow>
            (\<exists>rs' r. players_pollResults (playerCount g) = Some rs' \<and> r \<in> set rs' \<and> rec_value r = v))
        \<and> (\<forall>v. age_suggested (age g) = Some v \<longrightarrow>
            (\<exists>rs' r. age_pollResults (age g) = Some rs' \<and> r \<in> set rs' \<and> rec_value r = v)))"
proof (intro conjI impI)
  assume "\<exists>r\<in>set rs. score r \<noteq> 0"
  then show "\<exists>best ys zs. getTopRecommendation (Some rs) = Some best \<and> rs = ys @ best # zs
         \<and> (\<forall>y\<in>set ys. score y < score best) \<and> (\<forall>z\<in>set zs. score z \<le> score best)"
    by (rule getTopRecommendation_first_max)
next
  show "getTopRecommendation recs = None \<longleftrightarrow>
        recs = None \<or> recs = Some [] \<or> (\<exists>rs'. recs = Some rs' \<and> (\<forall>r\<in>set rs'. score r = 0))"
    by (rule getTopRecommendation_None)
next
  show "getTopRecommendation (Some exampleRecommendations) = Some \<lparr>rec_value = Str ''B'', score = 30\<rparr>"
    by (simp add: getTopRecommendation_def better_def exampleRecommendations_def)
next
  assume p: "parseGame sanitize thing = Inr g"
  from parseGame_suggested_in_pollResults [OF p]
  show "\<forall>v. players_suggested (playerCount g) = Some v \<longrightarrow>
            (\<exists>rs' r. players_pollResults (playerCount g) = Some rs' \<and> r \<in> set rs' \<and> rec_value r = v)"
    by blast
  from parseGame_suggested_in_pollResults [OF p]
  show "\<forall>v. age_suggested (age g) = Some v \<longrightarrow>
            (\<exists>rs' r. age_pollResults (age g) = Some rs' \<and> r \<in> set rs' \<and> rec_value r = v)"
    by blast
qed

theorem getTopRecommendation_first_maximum_witness:
  "(\<exists>r\<in>set exampleRecommendations. score r \<noteq> 0)
   \<and> (\<exists>best ys zs. getTopRecommendation (Some exampleRecommendations) = Some best
         \<and> exampleRecommendations = ys @ best # zs
         \<and> (\<forall>y\<in>set ys. score y < score best) \<and> (\<forall>z\<in>set zs. score z \<le> score best))
   \<and> (\<exists>g. parseGame (\<lambda>d. d) exampleThing = Inr g
         \<and> players_suggested (playerCount g) = Some (Str ''2'')
         \<and> (\<exists>rs' r. players_pollResults (playerCount g) = Some rs' \<and> r \<in> set rs' \<and> rec_value r = Str ''2'')
         \<and> age_suggested (age g) = Some (Str ''8'')
         \<and> (\<exists>rs' r. age_pollResults (age g) = Some rs' \<and> r \<in> set rs' \<and> rec_value r = Str ''8''))"
proof -
  have h: "\<exists>r\<in>set exampleRecommendations. score r \<noteq> 0"
    by (simp add: exampleRecommendations_def)
  obtain g where g: "parseGame (\<lambda>d. d) exampleThing = Inr g"
    and p: "players_suggested (playerCount g) = Some (Str ''2'')"
    and a: "age_suggested (age g) = Some (Str ''8'')"
    using exampleThing_parses by blast
  note t = getTopRecommendation_first_maximum [of exampleRecommendations None "\<lambda>d. d" exampleThing g]
  from t h have first: "\<exists>best ys zs. getTopRecommendation (Some exampleRecommendations) = Some best
         \<and> exampleRecommendations = ys @ best # zs
         \<and> (\<forall>y\<in>set ys. score y < score best) \<and> (\<forall>z\<in>set zs. score z \<le> score best)"
    by blast
  from t g p have players: "\<exists>rs' r. players_pollResults (playerCount g) = Some rs' \<and> r \<in> set rs' \<and> rec_value r = Str ''2''"
    by blast
  from t g a have ages: "\<exists>rs' r. age_pollResults (age g) = Some rs' \<and> r \<in> set rs' \<and> rec_value r = Str ''8''"
    by blast
  from h first g p players a ages show ?thesis by blast
qed

section \<open>Properties of the ingestion loop\<close>

subsection \<open>One pass through the loop body\<close>

lemma map_filter_append: "List.map_filter f (xs @ ys) = List.map_filter f xs @ List.map_filter f ys"
  by (simp add: List.map_filter_def)

lemma loggedBatches_append: "loggedBatches (es @ fs) = loggedBatches es @ loggedBatches fs"
  by (simp add: loggedBatches_def map_filter_append)


lemma iteration_Raised:
  "iteration debug bsz sanitize Raised t s =
     s\<lparr>stats := pushError (map row_id (batch s)) (errorMessage (currentBatchCount s)) (stats s),
       client := client s + 1,
       effects := effects s @ [LogBatch (currentBatchCount s) (map row_id (batch s)),
                               Query (client s) (map row_id (batch s)),
                               LogError (errorMessage (currentBatchCount s)),
                               Sleep (of_int sleepTime)]\<rparr>"
  by (simp add: iteration_def catchBlock_def errorMessage_def Let_def)

lemma iteration_fetched:
  "outcome \<noteq> Raised \<Longrightarrow>
   iteration debug bsz sanitize outcome t s =
     afterFetch debug bsz sanitize t (fetched outcome) (entered outcome s)"
  by (cases outcome) (simp_all add: iteration_def entered_def Let_def)

lemma entered_fields:
  "batch (entered outcome s) = batch s"
  "df_value (entered outcome s) = df_value s"
  "currentBatchCount (entered outcome s) = currentBatchCount s"
  "totalBatchCount (entered outcome s) = totalBatchCount s"
  "client (entered outcome s) = client s"
  "status (entered outcome s) = status s"
  "batchesProcessed (stats (entered outcome s)) = batchesProcessed (stats s)"
  "averageTimePerBatch (stats (entered outcome s)) = averageTimePerBatch (stats s)"
  "availableBatches (stats (entered outcome s)) = availableBatches (stats s)"
  "startingBatch (stats (entered outcome s)) = startingBatch (stats s)"
  "errors (stats (entered outcome s)) =
     errors (stats s) @ (if fetched outcome = []
                         then [\<lparr>ids = map row_id (batch s), error = ''No data returned from BGG API''\<rparr>]
                         else [])"
  "effects (entered outcome s) =
     effects s @ [LogBatch (currentBatchCount s) (map row_id (batch s)),
                  Query (client s) (map row_id (batch s))]
       @ (if fetched outcome = [] then [LogNoData] else [])"
  by (simp_all add: entered_def noData_def pushError_def Let_def)

lemma afterFetch_crash:
  "mapParseGame sanitize things = Inl e \<Longrightarrow>
   afterFetch debug bsz sanitize t things s = s\<lparr>status := Crashed e\<rparr>"
  by (simp add: afterFetch_def)

lemma afterFetch_ok:
  assumes "mapParseGame sanitize things = Inr games"
  shows "batch (afterFetch debug bsz sanitize t things s) = take (nat bsz) (df_value s)"
    and "df_value (afterFetch debug bsz sanitize t things s) = drop (nat bsz) (df_value s)"
    and "currentBatchCount (afterFetch debug bsz sanitize t things s)
           = (if debug then currentBatchCount s else currentBatchCount s + 1)"
    and "totalBatchCount (afterFetch debug bsz sanitize t things s) = totalBatchCount s"
    and "client (afterFetch debug bsz sanitize t things s) = client s"
    and "status (afterFetch debug bsz sanitize t things s) = (if debug then Exited 0 else status s)"
    and "batchesProcessed (stats (afterFetch debug bsz sanitize t things s)) = batchesProcessed (stats s) + 1"
    and "averageTimePerBatch (stats (afterFetch debug bsz sanitize t things s))
           = (averageTimePerBatch (stats s) * of_int (batchesProcessed (stats s) + 1 - 1) + t)
             / of_int (batchesProcessed (stats s) + 1)"
    and "availableBatches (stats (afterFetch debug bsz sanitize t things s)) = availableBatches (stats s)"
    and "startingBatch (stats (afterFetch debug bsz sanitize t things s)) = startingBatch (stats s)"
    and "errors (stats (afterFetch debug bsz sanitize t things s)) = errors (stats s)"
    and "effects (afterFetch debug bsz sanitize t things s)
           = effects s @ [WriteBatch debug (currentBatchCount s) games,
                          LogProgress (currentBatchCount s) (totalBatchCount s) t
                            ((averageTimePerBatch (stats s) * of_int (batchesProcessed (stats s) + 1 - 1) + t)
                             / of_int (batchesProcessed (stats s) + 1))]
               @ pacing debug (currentBatchCount s) t things"
  using assms
  by (simp_all add: afterFetch_def splice_def pacing_def Let_def)

subsection \<open>The batch plan is an invariant of the loop\<close>

lemma loggedBatches_simps [simp]:
  "loggedBatches [] = []"
  "loggedBatches (LogBatch i is # es) = (i, is) # loggedBatches es"
  "loggedBatches (LogTotal n # es) = loggedBatches es"
  "loggedBatches (LogSkipping n # es) = loggedBatches es"
  "loggedBatches (Query c is # es) = loggedBatches es"
  "loggedBatches (LogNoData # es) = loggedBatches es"
  "loggedBatches (LogError m # es) = loggedBatches es"
  "loggedBatches (Sleep d # es) = loggedBatches es"
  "loggedBatches (WriteBatch dbg i gs # es) = loggedBatches es"
  "loggedBatches (LogProgress i n d a # es) = loggedBatches es"
  "loggedBatches (WriteRaw i ts # es) = loggedBatches es"
  "loggedBatches (LogDebugExit # es) = loggedBatches es"
  by (simp_all add: loggedBatches_def)

lemma loggedBatches_pacing [simp]: "loggedBatches (pacing debug n t things) = []"
  by (simp add: pacing_def)

lemma planned_initial_skip:
  "planned b n rows (initialState (Some (int n)) (int b) now rows)"
  by (simp add: planned_def initialState_def applySkip_def splice_def Let_def
        mult.commute add.commute flip: of_nat_mult)

lemma planned_initial:
  "planned b 0 rows (initialState None (int b) now rows)"
  by (simp add: planned_def initialState_def applySkip_def splice_def Let_def add.commute)

lemma planned_iteration:
  assumes inv: "planned b n rows s" and run: "status s = Running" and ne: "batch s \<noteq> []"
  shows "planned b n rows (iteration debug (int b) sanitize outcome t s)"
proof -
  from inv obtain k where k: "batchesProcessed (stats s) = int k"
    and b: "batch s = take b (drop (b * (n + k)) rows)"
    and d: "df_value s = drop (b * (n + k) + b) rows"
    and c: "currentBatchCount s = int (n + k) + 1"
    and l: "\<forall>e \<in> set (loggedBatches (effects s)). announced b n rows e"
    using run unfolding planned_def by blast
  have same: "\<exists>k'. batchesProcessed (stats s) = int k'
        \<and> batch s = take b (drop (b * (n + k')) rows)
        \<and> df_value s = drop (b * (n + k') + b) rows
        \<and> (status s = Running \<longrightarrow> currentBatchCount s = int (n + k') + 1)"
    using k b d c by blast
  have "nat (int n + int k) = n + k" by simp
  then have "announced b n rows (currentBatchCount s, map row_id (batch s))"
    using ne by (simp add: announced_def c b batchRows_def)
  with l have log: "\<forall>e \<in> set (loggedBatches (effects s) @ [(currentBatchCount s, map row_id (batch s))]).
         announced b n rows e"
    by simp
  show ?thesis
  proof (cases "outcome = Raised")
    case True
    show ?thesis
      unfolding True iteration_Raised planned_def
      using same log by (simp add: pushError_def loggedBatches_append)
  next
    case False
    note it = iteration_fetched [OF False]
    show ?thesis
    proof (cases "mapParseGame sanitize (fetched outcome)")
      case (Inl e)
      show ?thesis
        unfolding it afterFetch_crash [OF Inl] planned_def
        using same log by (auto simp add: entered_fields loggedBatches_append)
    next
      case (Inr games)
      note f = afterFetch_ok [OF Inr]
      have first: "\<exists>k'. batchesProcessed (stats s) + 1 = int k'
          \<and> take b (df_value s) = take b (drop (b * (n + k')) rows)
          \<and> drop b (df_value s) = drop (b * (n + k') + b) rows
          \<and> ((if debug then Exited 0 else status s) = Running \<longrightarrow>
               (if debug then currentBatchCount s else currentBatchCount s + 1) = int (n + k') + 1)"
        by (rule exI [of _ "Suc k"]) (simp add: k d c add.commute add.left_commute)
      show ?thesis
        unfolding it planned_def f entered_fields
        using first log by (simp add: loggedBatches_append)
    qed
  qed
qed

lemma planned_run:
  "planned b n rows s \<Longrightarrow> planned b n rows (run debug (int b) sanitize env s)"
proof (induction env arbitrary: s)
  case Nil
  then show ?case by simp
next
  case (Cons p env)
  obtain outcome t where p: "p = (outcome, t)" by (cases p)
  show ?case
  proof (cases "status s = Running \<and> length (batch s) > 0")
    case True
    then have "planned b n rows (iteration debug (int b) sanitize outcome t s)"
      using Cons.prems planned_iteration by simp
    then show ?thesis using True Cons.IH p by simp
  next
    case False
    then have "run debug (int b) sanitize (p # env) s = s" using p by auto
    then show ?thesis using Cons.prems by simp
  qed
qed

subsection \<open>Arithmetic of the batch count\<close>

lemma ceilBatches_less:
  assumes "0 < b"
  shows "i < ceilBatches len (int b) \<longleftrightarrow> i * int b < int len"
proof -
  have "i < ceilBatches len (int b) \<longleftrightarrow> (of_int i :: rat) < of_nat len / of_int (int b)"
    by (simp add: ceilBatches_def less_ceiling_iff)
  also have "\<dots> \<longleftrightarrow> (of_int i :: rat) * of_int (int b) < of_nat len"
    using assms by (simp add: pos_less_divide_eq)
  also have "\<dots> \<longleftrightarrow> (of_int (i * int b) :: rat) < of_int (int len)"
    by simp
  also have "\<dots> \<longleftrightarrow> i * int b < int len"
    by (simp only: of_int_less_iff)
  finally show ?thesis .
qed

lemma batchRows_nonempty:
  assumes "0 < i"
  shows "batchRows b rows i \<noteq> [] \<longleftrightarrow> 0 < b \<and> (i - 1) * int b < int (length rows)"
proof -
  have h: "int (b * nat (i - 1)) = (i - 1) * int b" using assms by simp
  have "b * nat (i - 1) < length rows \<longleftrightarrow> int (b * nat (i - 1)) < int (length rows)"
    by (simp only: of_nat_less_iff)
  then have "b * nat (i - 1) < length rows \<longleftrightarrow> (i - 1) * int b < int (length rows)"
    by (simp only: h)
  then show ?thesis by (auto simp add: batchRows_def)
qed

lemma batchRows_length_full:
  assumes "0 < i" and "i * int b < int (length rows)"
  shows "length (batchRows b rows i) = b"
proof -
  have "int (b * nat (i - 1) + b) = i * int b" using assms(1) by (simp add: algebra_simps)
  then have "int (b * nat (i - 1) + b) < int (length rows)" using assms(2) by (simp only:)
  then have "b * nat (i - 1) + b < length rows" by (simp only: of_nat_less_iff)
  then show ?thesis by (simp add: batchRows_def)
qed

lemma announced_bounds:
  assumes b: "0 < b" and a: "announced b 0 rows (i, is)"
  shows "1 \<le> i \<and> i \<le> ceilBatches (length rows) (int b)
         \<and> is = map row_id (batchRows b rows i)
         \<and> (i < ceilBatches (length rows) (int b) \<longrightarrow> length is = b)
         \<and> 0 < length is \<and> length is \<le> b"
proof -
  from a have i: "0 < i" and ne: "batchRows b rows i \<noteq> []" and eq: "is = map row_id (batchRows b rows i)"
    by (auto simp add: announced_def)
  from ne i have "(i - 1) * int b < int (length rows)" by (simp add: batchRows_nonempty)
  then have "i - 1 < ceilBatches (length rows) (int b)" using b by (simp add: ceilBatches_less)
  then have le: "i \<le> ceilBatches (length rows) (int b)" by simp
  have full: "i < ceilBatches (length rows) (int b) \<longrightarrow> length is = b"
    using b i eq by (simp add: ceilBatches_less batchRows_length_full)
  have "length is \<le> b" using eq by (simp add: batchRows_def)
  with i le eq full ne show ?thesis by simp
qed

lemma concat_batches_take:
  "concat (map (\<lambda>k. take b (drop (b * k) rows)) [0..<m]) = take (b * m) rows"
proof (induction m)
  case 0
  show ?case by simp
next
  case (Suc m)
  have "take (b * m + b) rows = take (b * m) rows @ take b (drop (b * m) rows)"
    by (rule take_add)
  moreover have "b * Suc m = b * m + b" by simp
  ultimately show ?case using Suc by (simp del: mult_Suc_right)
qed

lemma ceilBatches_covers:
  assumes "0 < b"
  shows "0 \<le> ceilBatches len (int b) \<and> len \<le> b * nat (ceilBatches len (int b))"
proof -
  have "(0::rat) \<le> of_nat len / of_int (int b)" by simp
  then have nn: "0 \<le> ceilBatches len (int b)"
    unfolding ceilBatches_def using ceiling_mono [of 0 "(of_nat len :: rat) / of_int (int b)"] by simp
  have "\<not> ceilBatches len (int b) < ceilBatches len (int b)" by simp
  then have "\<not> ceilBatches len (int b) * int b < int len"
    using assms ceilBatches_less by blast
  then have "int len \<le> int (b * nat (ceilBatches len (int b)))"
    using nn by (simp add: mult.commute)
  then have "len \<le> b * nat (ceilBatches len (int b))" by (simp only: of_nat_le_iff)
  then show ?thesis using nn by simp
qed

lemma batches_concat:
  assumes "0 < b"
  shows "concat (map (\<lambda>k. batchRows b rows (int k + 1)) [0..<nat (ceilBatches (length rows) (int b))]) = rows"
proof -
  have "(\<lambda>k. batchRows b rows (int k + 1)) = (\<lambda>k. take b (drop (b * k) rows))"
    by (simp add: batchRows_def)
  then show ?thesis
    using ceilBatches_covers [OF assms, of "length rows"] by (simp add: concat_batches_take)
qed

lemma run_constants:
  "totalBatchCount (run debug bsz sanitize env s) = totalBatchCount s
   \<and> availableBatches (stats (run debug bsz sanitize env s)) = availableBatches (stats s)
   \<and> startingBatch (stats (run debug bsz sanitize env s)) = startingBatch (stats s)"
proof (induction env arbitrary: s)
  case Nil
  show ?case by simp
next
  case (Cons p env)
  obtain outcome t where p: "p = (outcome, t)" by (cases p)
  have it: "totalBatchCount (iteration debug bsz sanitize outcome t s) = totalBatchCount s
   \<and> availableBatches (stats (iteration debug bsz sanitize outcome t s)) = availableBatches (stats s)
   \<and> startingBatch (stats (iteration debug bsz sanitize outcome t s)) = startingBatch (stats s)"
  proof (cases "outcome = Raised")
    case True
    show ?thesis unfolding True iteration_Raised by (simp add: pushError_def)
  next
    case False
    show ?thesis
    proof (cases "mapParseGame sanitize (fetched outcome)")
      case (Inl e)
      show ?thesis unfolding iteration_fetched [OF False] afterFetch_crash [OF Inl]
        by (simp add: entered_fields)
    next
      case (Inr games)
      show ?thesis unfolding iteration_fetched [OF False]
        by (simp add: afterFetch_ok [OF Inr] entered_fields)
    qed
  qed
  show ?case using Cons.IH [of "iteration debug bsz sanitize outcome t s"] it p by simp
qed

subsection \<open>Runs in which every pass completes\<close>

lemma completes_iteration:
  assumes "completes sanitize outcome"
  shows "batch (iteration False bsz sanitize outcome t s) = take (nat bsz) (df_value s)"
    and "df_value (iteration False bsz sanitize outcome t s) = drop (nat bsz) (df_value s)"
    and "currentBatchCount (iteration False bsz sanitize outcome t s) = currentBatchCount s + 1"
    and "status (iteration False bsz sanitize outcome t s) = status s"
    and "loggedBatches (effects (iteration False bsz sanitize outcome t s))
           = loggedBatches (effects s) @ [(currentBatchCount s, map row_id (batch s))]"
proof -
  from assms have nr: "outcome \<noteq> Raised" by (auto simp add: completes_def)
  from assms obtain games where g: "mapParseGame sanitize (fetched outcome) = Inr games"
    by (cases outcome; cases "mapParseGame sanitize (fetched outcome)") (simp_all add: completes_def)
  note f = afterFetch_ok [OF g] entered_fields
  show "batch (iteration False bsz sanitize outcome t s) = take (nat bsz) (df_value s)"
    unfolding iteration_fetched [OF nr] by (simp add: f)
  show "df_value (iteration False bsz sanitize outcome t s) = drop (nat bsz) (df_value s)"
    unfolding iteration_fetched [OF nr] by (simp add: f)
  show "currentBatchCount (iteration False bsz sanitize outcome t s) = currentBatchCount s + 1"
    unfolding iteration_fetched [OF nr] by (simp add: f)
  show "status (iteration False bsz sanitize outcome t s) = status s"
    unfolding iteration_fetched [OF nr] by (simp add: f)
  show "loggedBatches (effects (iteration False bsz sanitize outcome t s))
           = loggedBatches (effects s) @ [(currentBatchCount s, map row_id (batch s))]"
    unfolding iteration_fetched [OF nr] by (simp add: f loggedBatches_append)
qed

lemma slice_nonempty:
  assumes "0 < b"
  shows "take b (drop (b * p) rows) \<noteq> [] \<longleftrightarrow> p < nat (ceilBatches (length rows) (int b))"
proof -
  have "int p < ceilBatches (length rows) (int b) \<longleftrightarrow> int p * int b < int (length rows)"
    using assms by (rule ceilBatches_less)
  also have "\<dots> \<longleftrightarrow> int (b * p) < int (length rows)" by (simp add: mult.commute)
  also have "\<dots> \<longleftrightarrow> b * p < length rows" by (simp only: of_nat_less_iff)
  finally have "p < nat (ceilBatches (length rows) (int b)) \<longleftrightarrow> b * p < length rows"
    by (simp add: zless_nat_eq_int_zless)
  then show ?thesis using assms by auto
qed

lemma run_completes:
  assumes b: "0 < b" and ok: "list_all (\<lambda>(outcome, t). completes sanitize outcome) env"
    and st: "status s = Running"
    and bt: "batch s = take b (drop (b * p) rows)"
    and df: "df_value s = drop (b * p + b) rows"
    and cn: "currentBatchCount s = int p + 1"
  shows "loggedBatches (effects (run False (int b) sanitize env s))
           = loggedBatches (effects s)
             @ map (\<lambda>k. (int k + 1, map row_id (take b (drop (b * k) rows))))
                 [p..<min (p + length env) (nat (ceilBatches (length rows) (int b)))]
         \<and> status (run False (int b) sanitize env s) = Running
         \<and> (nat (ceilBatches (length rows) (int b)) \<le> p + length env \<longrightarrow>
              batch (run False (int b) sanitize env s) = [])"
  using ok st bt df cn
proof (induction env arbitrary: s p)
  case Nil
  have "nat (ceilBatches (length rows) (int b)) \<le> p \<longrightarrow> batch s = []"
    using slice_nonempty [OF b, of p rows] Nil.prems(3) by auto
  then show ?case using Nil.prems by simp
next
  case (Cons e env)
  obtain outcome t where e: "e = (outcome, t)" by (cases e)
  let ?M = "nat (ceilBatches (length rows) (int b))"
  show ?case
  proof (cases "batch s = []")
    case True
    then have "\<not> p < ?M" using slice_nonempty [OF b, of p rows] Cons.prems(3) by simp
    then have "[p..<min (p + length (e # env)) ?M] = []" by simp
    then show ?thesis using True Cons.prems(2) e by simp
  next
    case False
    then have pM: "p < ?M" using slice_nonempty [OF b, of p rows] Cons.prems(3) by simp
    let ?s = "iteration False (int b) sanitize outcome t s"
    have c: "completes sanitize outcome" using Cons.prems(1) e by simp
    note it = completes_iteration [OF c, of "int b" t s]
    have r: "run False (int b) sanitize (e # env) s = run False (int b) sanitize env ?s"
      using False Cons.prems(2) e by simp
    have ih: "loggedBatches (effects (run False (int b) sanitize env ?s))
           = loggedBatches (effects ?s)
             @ map (\<lambda>k. (int k + 1, map row_id (take b (drop (b * k) rows))))
                 [Suc p..<min (Suc p + length env) ?M]
         \<and> status (run False (int b) sanitize env ?s) = Running
         \<and> (?M \<le> Suc p + length env \<longrightarrow> batch (run False (int b) sanitize env ?s) = [])"
    proof (rule Cons.IH)
      show "list_all (\<lambda>(outcome, t). completes sanitize outcome) env" using Cons.prems(1) by simp
      show "status ?s = Running" using it Cons.prems(2) by simp
      show "batch ?s = take b (drop (b * Suc p) rows)" using it Cons.prems(4) by (simp add: add.commute)
      show "df_value ?s = drop (b * Suc p + b) rows" using it Cons.prems(4) by (simp add: add.commute)
      show "currentBatchCount ?s = int (Suc p) + 1" using it Cons.prems(5) by simp
    qed
    have up: "[p..<min (p + length (e # env)) ?M] = p # [Suc p..<min (Suc p + length env) ?M]"
      using pM by (simp add: upt_conv_Cons)
    show ?thesis
      unfolding r up using ih it(5) Cons.prems(3,5) by simp
  qed
qed

subsection \<open>The 95-row key source\<close>

lemma exampleRows_length: "length exampleRows = 95"
  by (simp add: exampleRows_def)

lemma example_total: "ceilBatches 95 40 = 3"
  by (simp add: ceilBatches_def ceiling_eq_iff)

lemma exampleRows_slice:
  "k + m \<le> 95 \<Longrightarrow> map row_id (take m (drop k exampleRows)) = map int [Suc k..<Suc k + m]"
  by (simp add: exampleRows_def take_map drop_map)

lemma exampleRows_batches:
  "map row_id (batchRows 40 exampleRows 1) = map int [1..<41]"
  "map row_id (batchRows 40 exampleRows 2) = map int [41..<81]"
  "map row_id (batchRows 40 exampleRows 3) = map int [81..<96]"
proof -
  show "map row_id (batchRows 40 exampleRows 1) = map int [1..<41]"
    using exampleRows_slice [of 0 40] by (simp add: batchRows_def)
  show "map row_id (batchRows 40 exampleRows 2) = map int [41..<81]"
    using exampleRows_slice [of 40 40] by (simp add: batchRows_def)
  have "take 40 (drop 80 exampleRows) = take 15 (drop 80 exampleRows)"
    by (simp add: exampleRows_length)
  then show "map row_id (batchRows 40 exampleRows 3) = map int [81..<96]"
    using exampleRows_slice [of 80 15] by (simp add: batchRows_def)
qed

lemma exampleEnv_completes: "list_all (\<lambda>(outcome, t). completes (\<lambda>d. d) outcome) exampleEnv"
proof -
  obtain g where "parseGame (\<lambda>d. d) exampleThing = Inr g" using exampleThing_parses by blast
  then show ?thesis by (simp add: exampleEnv_def completes_def)
qed

subsection \<open>Runs from the initial state\<close>

lemma initialState_fields:
  "status (initialState skip bsz now rows) = Running"
  "totalBatchCount (initialState skip bsz now rows) = ceilBatches (length rows) bsz"
  "availableBatches (stats (initialState skip bsz now rows)) = ceilBatches (length rows) bsz"
  "batchesProcessed (stats (initialState skip bsz now rows)) = 0"
  "averageTimePerBatch (stats (initialState skip bsz now rows)) = 0"
  "errors (stats (initialState skip bsz now rows)) = []"
  "client (initialState skip bsz now rows) = 0"
  "loggedBatches (effects (initialState skip bsz now rows)) = []"
  "progressTimes (effects (initialState skip bsz now rows)) = []"
  by (simp_all add: initialState_def Let_def progressTimes_def split: prod.splits option.splits)

lemma initialState_skip:
  "batch (initialState (Some (int n)) (int b) now rows) = take b (drop (b * n) rows)"
  "df_value (initialState (Some (int n)) (int b) now rows) = drop (b * n + b) rows"
  "currentBatchCount (initialState (Some (int n)) (int b) now rows) = int n + 1"
  "startingBatch (stats (initialState (Some (int n)) (int b) now rows)) = int n + 1"
  by (simp_all add: initialState_def applySkip_def splice_def Let_def mult.commute add.commute
        flip: of_nat_mult)

lemma initialState_noskip:
  "batch (initialState None (int b) now rows) = take b (drop (b * 0) rows)"
  "df_value (initialState None (int b) now rows) = drop (b * 0 + b) rows"
  "currentBatchCount (initialState None (int b) now rows) = int 0 + 1"
  by (simp_all add: initialState_def applySkip_def splice_def Let_def)

lemma logged_from_start:
  assumes b: "0 < b" and ok: "list_all (\<lambda>(outcome, t). completes sanitize outcome) env"
    and enough: "nat (ceilBatches (length rows) (int b)) \<le> length env"
  shows "loggedBatches (effects (run False (int b) sanitize env (initialState None (int b) now rows)))
           = map (\<lambda>k. (int k + 1, map row_id (batchRows b rows (int k + 1))))
               [0..<nat (ceilBatches (length rows) (int b))]
         \<and> batch (run False (int b) sanitize env (initialState None (int b) now rows)) = []
         \<and> status (run False (int b) sanitize env (initialState None (int b) now rows)) = Running"
proof -
  have m: "min (length env) (nat (ceilBatches (length rows) (int b))) = nat (ceilBatches (length rows) (int b))"
    using enough by simp
  have f: "(\<lambda>k. (int k + 1, map row_id (batchRows b rows (int k + 1))))
         = (\<lambda>k. (int k + 1, map row_id (take b (drop (b * k) rows))))"
    by (simp add: batchRows_def)
  from run_completes [OF b ok initialState_fields(1) initialState_noskip, of now rows]
  show ?thesis
    using enough by (simp add: initialState_fields m f)
qed

lemma example_run:
  "map (\<lambda>(i, is). (i, length is))
       (loggedBatches (effects (run False 40 (\<lambda>d. d) exampleEnv (initialState None 40 0 exampleRows))))
     = [(1, 40), (2, 40), (3, 15)]"
proof -
  have len: "length exampleEnv = 3" by (simp add: exampleEnv_def)
  have up: "[0..<3] = [0, 1, 2]" by (simp add: upt_rec)
  from logged_from_start [of 40 "\<lambda>d. d" exampleEnv exampleRows 0] exampleEnv_completes
  have "loggedBatches (effects (run False 40 (\<lambda>d. d) exampleEnv (initialState None 40 0 exampleRows)))
           = map (\<lambda>k. (int k + 1, map row_id (batchRows 40 exampleRows (int k + 1)))) [0..<3]"
    by (simp add: exampleRows_length example_total len)
  then show ?thesis
    by (simp add: up exampleRows_batches)
qed

lemma example_skip_run:
  "loggedBatches (effects (run False 40 (\<lambda>d. d) exampleEnv (initialState (Some 1) 40 0 exampleRows)))
     = [(2, map int [41..<81]), (3, map int [81..<96])]"
proof -
  have len: "length exampleEnv = 3" by (simp add: exampleEnv_def)
  have up: "[Suc 0..<3] = [Suc 0, 2]" by (simp add: upt_rec)
  have f: "(\<lambda>k. (int k + 1, map row_id (take 40 (drop (40 * k) exampleRows))))
         = (\<lambda>k. (int k + 1, map row_id (batchRows 40 exampleRows (int k + 1))))"
    by (simp add: batchRows_def)
  from run_completes [of 40 "\<lambda>d. d" exampleEnv "initialState (Some (int 1)) (int 40) 0 exampleRows" 1 exampleRows,
      OF _ exampleEnv_completes initialState_fields(1) initialState_skip(1,2,3)]
  have "loggedBatches (effects (run False 40 (\<lambda>d. d) exampleEnv (initialState (Some 1) 40 0 exampleRows)))
           = map (\<lambda>k. (int k + 1, map row_id (take 40 (drop (40 * k) exampleRows)))) [1..<3]"
    by (simp add: exampleRows_length example_total len initialState_fields)
  then show ?thesis
    unfolding f by (simp add: up exampleRows_batches)
qed

subsection \<open>Batch planning\<close>

lemma logged_in_plan:
  assumes b: "0 < b"
    and e: "e \<in> set (loggedBatches (effects (run debug (int b) sanitize env (initialState None (int b) now rows))))"
  shows "1 \<le> fst e \<and> fst e \<le> ceilBatches (length rows) (int b)
         \<and> snd e = map row_id (batchRows b rows (fst e))
         \<and> (fst e < ceilBatches (length rows) (int b) \<longrightarrow> length (snd e) = b)
         \<and> 0 < length (snd e) \<and> length (snd e) \<le> b"
proof -
  have "planned b 0 rows (run debug (int b) sanitize env (initialState None (int b) now rows))"
    by (rule planned_run) (rule planned_initial)
  with e have "announced b 0 rows (fst e, snd e)" by (simp add: planned_def)
  from announced_bounds [OF b this] show ?thesis .
qed

text \<open>
  C6. Without a resume skip and with a positive batch size: the total batch count is the
  ceiling of the queue length over the batch size, fixed before the first batch is taken
  and never changed; every batch that a run announces has an index \<open>i\<close> from 1 to that
  total and is the slice of the key list from row \<open>(i - 1) * b\<close>, of \<open>b\<close> rows unless it
  is the last; the slices 1 to total, concatenated, are the key list; and a run in which
  enough passes complete announces exactly these batches in order and ends with an empty
  batch. On the 95-row source with batch size 40 the total is 3 and the sizes are 40, 40, 15.
\<close>

theorem batches_partition_input:
  assumes "0 < b"
  shows "totalBatchCount (initialState None (int b) now rows) = ceilBatches (length rows) (int b)
    \<and> totalBatchCount (run debug (int b) sanitize env (initialState None (int b) now rows))
        = ceilBatches (length rows) (int b)
    \<and> availableBatches (stats (run debug (int b) sanitize env (initialState None (int b) now rows)))
        = ceilBatches (length rows) (int b)
    \<and> (\<forall>e \<in> set (loggedBatches (effects (run debug (int b) sanitize env (initialState None (int b) now rows)))).
          1 \<le> fst e \<and> fst e \<le> ceilBatches (length rows) (int b)
          \<and> snd e = map row_id (batchRows b rows (fst e))
          \<and> (fst e < ceilBatches (length rows) (int b) \<longrightarrow> length (snd e) = b)
          \<and> 0 < length (snd e) \<and> length (snd e) \<le> b)
    \<and> concat (map (\<lambda>k. batchRows b rows (int k + 1)) [0..<nat (ceilBatches (length rows) (int b))]) = rows
    \<and> (list_all (\<lambda>(outcome, t). completes sanitize outcome) env
         \<and> nat (ceilBatches (length rows) (int b)) \<le> length env \<longrightarrow>
         loggedBatches (effects (run False (int b) sanitize env (initialState None (int b) now rows)))
           = map (\<lambda>k. (int k + 1, map row_id (batchRows b rows (int k + 1))))
               [0..<nat (ceilBatches (length rows) (int b))]
         \<and> batch (run False (int b) sanitize env (initialState None (int b) now rows)) = []
         \<and> status (run False (int b) sanitize env (initialState None (int b) now rows)) = Running)
    \<and> ceilBatches (length exampleRows) 40 = 3
    \<and> map (\<lambda>(i, is). (i, length is))
         (loggedBatches (effects (run False 40 (\<lambda>d. d) exampleEnv (initialState None 40 0 exampleRows))))
        = [(1, 40), (2, 40), (3, 15)]"
proof (intro conjI ballI impI)
  show "totalBatchCount (initialState None (int b) now rows) = ceilBatches (length rows) (int b)"
    by (simp add: initialState_fields)
  show "totalBatchCount (run debug (int b) sanitize env (initialState None (int b) now rows))
        = ceilBatches (length rows) (int b)"
    by (simp add: run_constants initialState_fields)
  show "availableBatches (stats (run debug (int b) sanitize env (initialState None (int b) now rows)))
        = ceilBatches (length rows) (int b)"
    by (simp add: run_constants initialState_fields)
  show "concat (map (\<lambda>k. batchRows b rows (int k + 1)) [0..<nat (ceilBatches (length rows) (int b))]) = rows"
    using assms by (rule batches_concat)
  show "ceilBatches (length exampleRows) 40 = 3"
    by (simp add: exampleRows_length example_total)
  show "map (\<lambda>(i, is). (i, length is))
         (loggedBatches (effects (run False 40 (\<lambda>d. d) exampleEnv (initialState None 40 0 exampleRows))))
        = [(1, 40), (2, 40), (3, 15)]"
    by (rule example_run)
next
  fix e
  assume e: "e \<in> set (loggedBatches (effects (run debug (int b) sanitize env (initialState None (int b) now rows))))"
  note l = logged_in_plan [OF assms e]
  show "1 \<le> fst e" using l by blast
  show "fst e \<le> ceilBatches (length rows) (int b)" using l by blast
  show "snd e = map row_id (batchRows b rows (fst e))" using l by blast
  show "0 < length (snd e)" using l by blast
  show "length (snd e) \<le> b" using l by blast
  assume "fst e < ceilBatches (length rows) (int b)"
  then show "length (snd e) = b" using l by blast
next
  assume a: "list_all (\<lambda>(outcome, t). completes sanitize outcome) env
         \<and> nat (ceilBatches (length rows) (int b)) \<le> length env"
  note l = logged_from_start [OF assms conjunct1 [OF a] conjunct2 [OF a], of now]
  show "loggedBatches (effects (run False (int b) sanitize env (initialState None (int b) now rows)))
           = map (\<lambda>k. (int k + 1, map row_id (batchRows b rows (int k + 1))))
               [0..<nat (ceilBatches (length rows) (int b))]"
    using l by simp
  show "batch (run False (int b) sanitize env (initialState None (int b) now rows)) = []"
    using l by simp
  show "status (run False (int b) sanitize env (initialState None (int b) now rows)) = Running"
    using l by simp
qed

theorem batches_partition_input_witness:
  "(0::nat) < 40
   \<and> list_all (\<lambda>(outcome, t). completes (\<lambda>d. d) outcome) exampleEnv
   \<and> nat (ceilBatches (length exampleRows) 40) \<le> length exampleEnv
   \<and> totalBatchCount (run False 40 (\<lambda>d. d) exampleEnv (initialState None 40 0 exampleRows)) = 3
   \<and> loggedBatches (effects (run False 40 (\<lambda>d. d) exampleEnv (initialState None 40 0 exampleRows)))
       = [(1, map int [1..<41]), (2, map int [41..<81]), (3, map int [81..<96])]
   \<and> batch (run False 40 (\<lambda>d. d) exampleEnv (initialState None 40 0 exampleRows)) = []
   \<and> concat (map (\<lambda>k. batchRows 40 exampleRows (int k + 1)) [0..<3]) = exampleRows"
proof -
  have pos: "(0::nat) < 40" by simp
  have enough: "nat (ceilBatches (length exampleRows) 40) \<le> length exampleEnv"
    by (simp add: exampleRows_length example_total exampleEnv_def)
  have up: "[0..<3] = [0, Suc 0, 2]" by (simp add: upt_rec)
  note t = batches_partition_input [OF pos, of 0 exampleRows False "\<lambda>d. d" exampleEnv]
  have total: "totalBatchCount (run False 40 (\<lambda>d. d) exampleEnv (initialState None 40 0 exampleRows)) = 3"
    using t by (simp add: exampleRows_length example_total)
  have logged: "loggedBatches (effects (run False 40 (\<lambda>d. d) exampleEnv (initialState None 40 0 exampleRows)))
       = [(1, map int [1..<41]), (2, map int [41..<81]), (3, map int [81..<96])]"
    using t exampleEnv_completes enough
    by (simp add: exampleRows_length example_total up exampleRows_batches)
  have finished: "batch (run False 40 (\<lambda>d. d) exampleEnv (initialState None 40 0 exampleRows)) = []"
    using t exampleEnv_completes enough by simp
  have cover: "concat (map (\<lambda>k. batchRows 40 exampleRows (int k + 1)) [0..<3]) = exampleRows"
    using t by (simp add: exampleRows_length example_total)
  from pos exampleEnv_completes enough total logged finished cover show ?thesis by blast
qed

text \<open>
  C7. A resume offset of \<open>n\<close> removes the first \<open>n * b\<close> rows of the queue (all of them when
  there are fewer) before a batch is taken and sets the batch counter to \<open>n\<close>, so that the
  first batch taken is rows \<open>n * b\<close> onwards and is counted as batch \<open>n + 1\<close>. On the
  95-row source with batch size 40 and offset 1 the first batch announced is batch 2 and
  starts with row 41.
\<close>

theorem skip_drops_whole_batches:
  "applySkip (Some (int n)) (int b) rows = (drop (n * b) rows, int n)
   \<and> length (fst (applySkip (Some (int n)) (int b) rows)) = length rows - n * b
   \<and> batch (initialState (Some (int n)) (int b) now rows) = take b (drop (n * b) rows)
   \<and> currentBatchCount (initialState (Some (int n)) (int b) now rows) = int n + 1
   \<and> startingBatch (stats (initialState (Some (int n)) (int b) now rows)) = int n + 1
   \<and> applySkip (Some 1) 40 exampleRows = (drop 40 exampleRows, 1)
   \<and> map row_id (batch (initialState (Some 1) 40 0 exampleRows)) = map int [41..<81]
   \<and> currentBatchCount (initialState (Some 1) 40 0 exampleRows) = 2
   \<and> loggedBatches (effects (run False 40 (\<lambda>d. d) exampleEnv (initialState (Some 1) 40 0 exampleRows)))
       = [(2, map int [41..<81]), (3, map int [81..<96])]"
proof -
  have skip: "applySkip (Some (int n)) (int b) rows = (drop (n * b) rows, int n)" for n b and rows :: "SourceRow list"
    by (simp add: applySkip_def splice_def flip: of_nat_mult)
  have first: "map row_id (batch (initialState (Some 1) 40 0 exampleRows)) = map int [41..<81]"
    using initialState_skip(1) [of 1 40 0 exampleRows] exampleRows_batches(2)
    by (simp add: batchRows_def)
  have count: "currentBatchCount (initialState (Some 1) 40 0 exampleRows) = 2"
    using initialState_skip(3) [of 1 40 0 exampleRows] by simp
  show ?thesis
    using skip [of n b rows] skip [of 1 40 exampleRows] first count example_skip_run
    by (simp add: initialState_skip mult.commute)
qed

subsection \<open>Running average\<close>

lemma progressTimes_simps [simp]:
  "progressTimes [] = []"
  "progressTimes (LogProgress i n d a # es) = d # progressTimes es"
  "progressTimes (LogBatch i is # es) = progressTimes es"
  "progressTimes (LogTotal n # es) = progressTimes es"
  "progressTimes (LogSkipping n # es) = progressTimes es"
  "progressTimes (Query c is # es) = progressTimes es"
  "progressTimes (LogNoData # es) = progressTimes es"
  "progressTimes (LogError m # es) = progressTimes es"
  "progressTimes (Sleep d # es) = progressTimes es"
  "progressTimes (WriteBatch dbg i gs # es) = progressTimes es"
  "progressTimes (WriteRaw i ts # es) = progressTimes es"
  "progressTimes (LogDebugExit # es) = progressTimes es"
  by (simp_all add: progressTimes_def)

lemma progressTimes_pacing [simp]: "progressTimes (pacing debug n t things) = []"
  by (simp add: pacing_def)










subsection \<open>Fetch failures\<close>

lemma retry_same_batch:
  "take 2 (drop (length (effects s)) (effects (iteration debug bsz sanitize outcome t s)))
     = [LogBatch (currentBatchCount s) (map row_id (batch s)), Query (client s) (map row_id (batch s))]"
proof (cases "outcome = Raised")
  case True
  show ?thesis unfolding True iteration_Raised by simp
next
  case False
  show ?thesis
  proof (cases "mapParseGame sanitize (fetched outcome)")
    case (Inl e)
    show ?thesis unfolding iteration_fetched [OF False] afterFetch_crash [OF Inl]
      by (simp add: entered_fields)
  next
    case (Inr games)
    show ?thesis unfolding iteration_fetched [OF False]
      by (simp add: afterFetch_ok [OF Inr] entered_fields)
  qed
qed

lemma empty_result:
  assumes "outcome \<noteq> Raised" and "fetched outcome = []"
  shows "errors (stats (iteration debug bsz sanitize outcome t s))
           = errors (stats s) @ [\<lparr>ids = map row_id (batch s), error = ''No data returned from BGG API''\<rparr>]"
    and "client (iteration debug bsz sanitize outcome t s) = client s"
    and "batch (iteration debug bsz sanitize outcome t s) = take (nat bsz) (df_value s)"
    and "df_value (iteration debug bsz sanitize outcome t s) = drop (nat bsz) (df_value s)"
    and "batchesProcessed (stats (iteration debug bsz sanitize outcome t s)) = batchesProcessed (stats s) + 1"
    and "currentBatchCount (iteration debug bsz sanitize outcome t s)
           = (if debug then currentBatchCount s else currentBatchCount s + 1)"
    and "status (iteration debug bsz sanitize outcome t s) = (if debug then Exited 0 else status s)"
    and "effects (iteration debug bsz sanitize outcome t s)
           = effects s @ [LogBatch (currentBatchCount s) (map row_id (batch s)),
                          Query (client s) (map row_id (batch s)),
                          LogNoData,
                          WriteBatch debug (currentBatchCount s) [],
                          LogProgress (currentBatchCount s) (totalBatchCount s) t
                            ((averageTimePerBatch (stats s) * of_int (batchesProcessed (stats s) + 1 - 1) + t)
                             / of_int (batchesProcessed (stats s) + 1))]
               @ pacing debug (currentBatchCount s) t []"
proof -
  have g: "mapParseGame sanitize [] = Inr []" by simp
  note f = afterFetch_ok [OF g] entered_fields
  note it = iteration_fetched [OF assms(1), unfolded assms(2)]
  show "errors (stats (iteration debug bsz sanitize outcome t s))
           = errors (stats s) @ [\<lparr>ids = map row_id (batch s), error = ''No data returned from BGG API''\<rparr>]"
    unfolding it using assms(2) by (simp add: f)
  show "client (iteration debug bsz sanitize outcome t s) = client s"
    unfolding it by (simp add: f)
  show "batch (iteration debug bsz sanitize outcome t s) = take (nat bsz) (df_value s)"
    unfolding it by (simp add: f)
  show "df_value (iteration debug bsz sanitize outcome t s) = drop (nat bsz) (df_value s)"
    unfolding it by (simp add: f)
  show "batchesProcessed (stats (iteration debug bsz sanitize outcome t s)) = batchesProcessed (stats s) + 1"
    unfolding it by (simp add: f)
  show "currentBatchCount (iteration debug bsz sanitize outcome t s)
           = (if debug then currentBatchCount s else currentBatchCount s + 1)"
    unfolding it by (simp add: f)
  show "status (iteration debug bsz sanitize outcome t s) = (if debug then Exited 0 else status s)"
    unfolding it by (simp add: f)
  show "effects (iteration debug bsz sanitize outcome t s)
           = effects s @ [LogBatch (currentBatchCount s) (map row_id (batch s)),
                          Query (client s) (map row_id (batch s)),
                          LogNoData,
                          WriteBatch debug (currentBatchCount s) [],
                          LogProgress (currentBatchCount s) (totalBatchCount s) t
                            ((averageTimePerBatch (stats s) * of_int (batchesProcessed (stats s) + 1 - 1) + t)
                             / of_int (batchesProcessed (stats s) + 1))]
               @ pacing debug (currentBatchCount s) t []"
    unfolding it using assms(2) by (simp add: f)
qed

lemma errorMessage_example:
  "errorMessage 1 = ''Error fetching batch 1, recreating client and retrying after 5sec...''"
  by code_simp

lemma threeRows_start:
  "batch (initialState None 2 0 threeRows) = [\<lparr>row_id = 11\<rparr>, \<lparr>row_id = 22\<rparr>]"
  "df_value (initialState None 2 0 threeRows) = [\<lparr>row_id = 33\<rparr>]"
  "currentBatchCount (initialState None 2 0 threeRows) = 1"
  "effects (initialState None 2 0 threeRows) = [LogTotal 2]"
  by code_simp+

text \<open>
  C1 (fetch failures). When the remote call raises, the pass records an error entry with the
  batch's identifiers, replaces the client, sleeps for the fixed backoff and leaves the
  batch, the queue, the counters and the status as they were, so that the next pass requests
  the same identifiers from the new client. When the call returns an absent or empty
  result, the pass records an error entry with the batch's identifiers and then goes on as
  for an empty answer: it writes an empty output for the batch, counts it as processed
  and takes the next batch, with the client unchanged and no backoff. Neither ends the run
  with a fault.
\<close>

theorem fetch_failure_handling:
  "errors (stats (iteration debug bsz sanitize Raised t s))
     = errors (stats s) @ [\<lparr>ids = map row_id (batch s), error = errorMessage (currentBatchCount s)\<rparr>]
   \<and> client (iteration debug bsz sanitize Raised t s) = client s + 1
   \<and> effects (iteration debug bsz sanitize Raised t s)
       = effects s @ [LogBatch (currentBatchCount s) (map row_id (batch s)),
                      Query (client s) (map row_id (batch s)),
                      LogError (errorMessage (currentBatchCount s)),
                      Sleep (of_int sleepTime)]
   \<and> batch (iteration debug bsz sanitize Raised t s) = batch s
   \<and> df_value (iteration debug bsz sanitize Raised t s) = df_value s
   \<and> currentBatchCount (iteration debug bsz sanitize Raised t s) = currentBatchCount s
   \<and> batchesProcessed (stats (iteration debug bsz sanitize Raised t s)) = batchesProcessed (stats s)
   \<and> status (iteration debug bsz sanitize Raised t s) = status s
   \<and> take 2 (drop (length (effects (iteration debug bsz sanitize Raised t s)))
          (effects (iteration debug bsz sanitize outcome' t' (iteration debug bsz sanitize Raised t s))))
       = [LogBatch (currentBatchCount s) (map row_id (batch s)),
          Query (client s + 1) (map row_id (batch s))]
   \<and> (outcome \<noteq> Raised \<and> fetched outcome = [] \<longrightarrow>
        errors (stats (iteration debug bsz sanitize outcome t s))
          = errors (stats s) @ [\<lparr>ids = map row_id (batch s), error = ''No data returned from BGG API''\<rparr>]
        \<and> client (iteration debug bsz sanitize outcome t s) = client s
        \<and> batch (iteration debug bsz sanitize outcome t s) = take (nat bsz) (df_value s)
        \<and> df_value (iteration debug bsz sanitize outcome t s) = drop (nat bsz) (df_value s)
        \<and> batchesProcessed (stats (iteration debug bsz sanitize outcome t s)) = batchesProcessed (stats s) + 1
        \<and> currentBatchCount (iteration debug bsz sanitize outcome t s)
            = (if debug then currentBatchCount s else currentBatchCount s + 1)
        \<and> status (iteration debug bsz sanitize outcome t s) = (if debug then Exited 0 else status s)
        \<and> effects (iteration debug bsz sanitize outcome t s)
            = effects s @ [LogBatch (currentBatchCount s) (map row_id (batch s)),
                           Query (client s) (map row_id (batch s)),
                           LogNoData,
                           WriteBatch debug (currentBatchCount s) [],
                           LogProgress (currentBatchCount s) (totalBatchCount s) t
                             ((averageTimePerBatch (stats s) * of_int (batchesProcessed (stats s) + 1 - 1) + t)
                              / of_int (batchesProcessed (stats s) + 1))]
                @ pacing debug (currentBatchCount s) t [])"
proof -
  have raised: "errors (stats (iteration debug bsz sanitize Raised t s))
     = errors (stats s) @ [\<lparr>ids = map row_id (batch s), error = errorMessage (currentBatchCount s)\<rparr>]
   \<and> client (iteration debug bsz sanitize Raised t s) = client s + 1
   \<and> effects (iteration debug bsz sanitize Raised t s)
       = effects s @ [LogBatch (currentBatchCount s) (map row_id (batch s)),
                      Query (client s) (map row_id (batch s)),
                      LogError (errorMessage (currentBatchCount s)),
                      Sleep (of_int sleepTime)]
   \<and> batch (iteration debug bsz sanitize Raised t s) = batch s
   \<and> df_value (iteration debug bsz sanitize Raised t s) = df_value s
   \<and> currentBatchCount (iteration debug bsz sanitize Raised t s) = currentBatchCount s
   \<and> batchesProcessed (stats (iteration debug bsz sanitize Raised t s)) = batchesProcessed (stats s)
   \<and> status (iteration debug bsz sanitize Raised t s) = status s"
    unfolding iteration_Raised by (simp add: pushError_def)
  have again: "take 2 (drop (length (effects (iteration debug bsz sanitize Raised t s)))
          (effects (iteration debug bsz sanitize outcome' t' (iteration debug bsz sanitize Raised t s))))
       = [LogBatch (currentBatchCount s) (map row_id (batch s)),
          Query (client s + 1) (map row_id (batch s))]"
    unfolding retry_same_batch using raised by simp
  show ?thesis
    using raised again empty_result [of outcome debug bsz sanitize t s] by blast
qed

theorem fetch_failure_handling_witness:
  "Absent \<noteq> Raised \<and> fetched Absent = []
   \<and> errors (stats (iteration False 2 (\<lambda>d. d) Raised 6000 (initialState None 2 0 threeRows)))
       = [\<lparr>ids = [11, 22], error = ''Error fetching batch 1, recreating client and retrying after 5sec...''\<rparr>]
   \<and> client (iteration False 2 (\<lambda>d. d) Raised 6000 (initialState None 2 0 threeRows)) = 1
   \<and> batch (iteration False 2 (\<lambda>d. d) Raised 6000 (initialState None 2 0 threeRows))
       = [\<lparr>row_id = 11\<rparr>, \<lparr>row_id = 22\<rparr>]
   \<and> effects (iteration False 2 (\<lambda>d. d) Raised 6000 (initialState None 2 0 threeRows))
       = [LogTotal 2, LogBatch 1 [11, 22], Query 0 [11, 22],
          LogError ''Error fetching batch 1, recreating client and retrying after 5sec...'', Sleep 5000]
   \<and> errors (stats (iteration False 2 (\<lambda>d. d) Absent 6000 (initialState None 2 0 threeRows)))
       = [\<lparr>ids = [11, 22], error = ''No data returned from BGG API''\<rparr>]
   \<and> batch (iteration False 2 (\<lambda>d. d) Absent 6000 (initialState None 2 0 threeRows)) = [\<lparr>row_id = 33\<rparr>]"
proof -
  have h: "Absent \<noteq> Raised \<and> fetched Absent = []" by simp
  note t = fetch_failure_handling [where debug = False and bsz = 2 and sanitize = "\<lambda>d. d" and t = 6000
      and s = "initialState None 2 0 threeRows" and outcome = Absent and outcome' = Absent and t' = 6000]
  from t have r1: "errors (stats (iteration False 2 (\<lambda>d. d) Raised 6000 (initialState None 2 0 threeRows)))
       = [\<lparr>ids = [11, 22], error = ''Error fetching batch 1, recreating client and retrying after 5sec...''\<rparr>]"
    by (simp add: threeRows_start initialState_fields errorMessage_example)
  from t have r2: "client (iteration False 2 (\<lambda>d. d) Raised 6000 (initialState None 2 0 threeRows)) = 1"
    by (simp add: initialState_fields)
  from t have r3: "batch (iteration False 2 (\<lambda>d. d) Raised 6000 (initialState None 2 0 threeRows))
       = [\<lparr>row_id = 11\<rparr>, \<lparr>row_id = 22\<rparr>]"
    by (simp add: threeRows_start)
  from t have r4: "effects (iteration False 2 (\<lambda>d. d) Raised 6000 (initialState None 2 0 threeRows))
       = [LogTotal 2, LogBatch 1 [11, 22], Query 0 [11, 22],
          LogError ''Error fetching batch 1, recreating client and retrying after 5sec...'', Sleep 5000]"
    by (simp add: threeRows_start initialState_fields errorMessage_example sleepTime_def)
  from t h have e1: "errors (stats (iteration False 2 (\<lambda>d. d) Absent 6000 (initialState None 2 0 threeRows)))
       = [\<lparr>ids = [11, 22], error = ''No data returned from BGG API''\<rparr>]"
    by (simp add: threeRows_start initialState_fields)
  from t h have e2: "batch (iteration False 2 (\<lambda>d. d) Absent 6000 (initialState None 2 0 threeRows)) = [\<lparr>row_id = 33\<rparr>]"
    by (simp add: threeRows_start)
  from h r1 r2 r3 r4 e1 e2 show ?thesis by blast
qed

text \<open>
  C1 as the specification words it fails on an absent result: the batch is not
  retried but replaced by the next one, the client is kept and no backoff is slept.
\<close>

theorem empty_result_not_retried:
  "batch (initialState None 2 0 threeRows) = [\<lparr>row_id = 11\<rparr>, \<lparr>row_id = 22\<rparr>]
   \<and> batch (iteration False 2 id Absent 6000 (initialState None 2 0 threeRows)) = [\<lparr>row_id = 33\<rparr>]
   \<and> batch (iteration False 2 id Absent 6000 (initialState None 2 0 threeRows))
       \<noteq> batch (initialState None 2 0 threeRows)
   \<and> client (iteration False 2 id Absent 6000 (initialState None 2 0 threeRows))
       = client (initialState None 2 0 threeRows)
   \<and> currentBatchCount (iteration False 2 id Absent 6000 (initialState None 2 0 threeRows)) = 2
   \<and> effects (iteration False 2 id Absent 6000 (initialState None 2 0 threeRows))
       = [LogTotal 2, LogBatch 1 [11, 22], Query 0 [11, 22], LogNoData, WriteBatch False 1 [],
          LogProgress 1 2 6000 6000]"
  by code_simp

section \<open>Properties of the normalizer\<close>

lemma parseGame_total:
  assumes "ageListsPresent (polls thing)"
  shows "\<exists>g. parseGame sanitize thing = Inr g
           \<and> (links thing = None \<longrightarrow> categories g = [] \<and> mechanics g = [])
           \<and> age_pollResults (age g) = scoreAgePoll (polls thing)
           \<and> players_pollResults (playerCount g) = scorePlayerCountPoll (polls thing)"
  using ageScore_eq_spec [OF assms]
  by (simp add: parseGame_def playerCountScore_eq_spec Let_def)

lemma parseGame_raises_iff:
  "parseGame sanitize thing = Inl e \<longleftrightarrow> calculateRecommendedAgeScore (polls thing) = Inl e"
  by (cases "calculateRecommendedAgeScore (polls thing)") (simp_all add: parseGame_def Let_def)

text \<open>
  C8. \<open>parseGame\<close> raises on an item whose age poll has a result group without its list of
  vote entries, while the same group in the player-count poll is skipped by the guard of
  \<open>parseNumPlayersPoll\<close>.
\<close>

theorem parseGame_raises_on_bare_age_group:
  "parseGame id bareAgeThing = Inl TypeError
   \<and> map_sum id (\<lambda>g. (players_pollResults (playerCount g), players_suggested (playerCount g)))
        (parseGame id barePlayersThing) = Inr (None, None)"
  by code_simp

end
